theory Spec2Isabelle
  imports Main
begin

section \<open>Python values and exceptions\<close>

text \<open>
  The embedding follows \<^verbatim>\<open>uclasm/graph.py\<close> and \<^verbatim>\<open>uclasm/matching/lsap.py\<close>.
  A raised exception is a value: \<open>Inl e\<close> of the result type \<open>exn + 'a\<close>.
  \<open>PyException msg\<close> is the bare \<^verbatim>\<open>Exception(msg)\<close> of \<^verbatim>\<open>Graph.__init__\<close>.
\<close>

datatype exn =
    PyException string
  | ValueError string
  | IndexError
  | KeyError
  | TypeError
  | AttributeError

definition bind_exn :: "exn + 'a \<Rightarrow> ('a \<Rightarrow> exn + 'b) \<Rightarrow> exn + 'b" where
  "bind_exn m f = (case m of Inl e \<Rightarrow> Inl e | Inr x \<Rightarrow> f x)"

section \<open>Adjacency matrices\<close>

text \<open>
  An adjacency matrix counts the edges of one channel: entry \<open>m ! i ! j\<close> is the number
  of edges from node \<open>i\<close> to node \<open>j\<close>. It is the list of its rows.
\<close>

type_synonym matrix = "int list list"

definition n_rows_of :: "'a list list \<Rightarrow> nat" where
  "n_rows_of m = length m"

definition n_cols_of :: "'a list list \<Rightarrow> nat" where
  "n_cols_of m = (case m of [] \<Rightarrow> 0 | r # _ \<Rightarrow> length r)"

text \<open>\<^verbatim>\<open>adj.diagonal()\<close>: the entries \<open>(i, i)\<close>, as many as the smaller dimension.\<close>

definition diagonal :: "matrix \<Rightarrow> int list" where
  "diagonal m = map (\<lambda>i. m ! i ! i) [0..<min (n_rows_of m) (n_cols_of m)]"

text \<open>\<^verbatim>\<open>adj.sum(axis=0)\<close>: one sum per column; \<^verbatim>\<open>adj.sum(axis=1)\<close>: one sum per row.\<close>

definition sum_axis0 :: "matrix \<Rightarrow> int list" where
  "sum_axis0 m = map (\<lambda>j. sum_list (map (\<lambda>row. row ! j) m)) [0..<n_cols_of m]"




section \<open>The Graph class\<close>

text \<open>
  The attributes set by \<^verbatim>\<open>Graph.__init__\<close>. The adjacency matrices are of type \<open>'m\<close>:
  matrices themselves where a derived view is computed, references into a store where
  a method writes into a matrix. A node list is its \<^verbatim>\<open>Node\<close> column; an edge list has
  the columns \<^verbatim>\<open>Source\<close>, \<^verbatim>\<open>Target\<close> and \<^verbatim>\<open>eType\<close>.
\<close>

type_synonym edge_row = "string \<times> string \<times> string"

record 'm graph =
  n_nodes :: nat
  n_channels :: nat
  channels :: "string list"
  adjs :: "'m list"
  nodelist :: "string list"
  edgelist :: "edge_row list option"

subsection \<open>Derived views\<close>




text \<open>
  The invariant of the data model: as many matrices as channels, at least one, each
  square of dimension \<open>n_nodes\<close>.
\<close>

definition square :: "nat \<Rightarrow> 'a list list \<Rightarrow> bool" where
  "square n m = (length m = n \<and> list_all (\<lambda>row. length row = n) m)"

definition wf_graph :: "matrix graph \<Rightarrow> bool" where
  "wf_graph g =
     (adjs g \<noteq> [] \<and> length (adjs g) = n_channels g \<and> list_all (square (n_nodes g)) (adjs g))"

subsection \<open>Construction\<close>

text \<open>
  The arguments of \<^verbatim>\<open>Graph(adjs, channels, nodelist, edgelist)\<close> are untyped in the
  source. The first and the third may each be absent, a list of adjacency matrices, a
  list of node names (the first argument of the old argument order) or a DataFrame
  whose column labels are strings (given by its \<^verbatim>\<open>Node\<close> column).
\<close>

datatype 'm arg =
    ArgNone
  | ArgMatrices "'m list"
  | ArgNames "string list"
  | ArgFrame "string list"

text \<open>\<^verbatim>\<open>len(x)\<close>: the number of entries, of rows for a DataFrame; a TypeError for None.\<close>

fun py_len :: "'m arg \<Rightarrow> exn + nat" where
  "py_len ArgNone = Inl TypeError"
| "py_len (ArgMatrices ms) = Inr (length ms)"
| "py_len (ArgNames ns) = Inr (length ns)"
| "py_len (ArgFrame rows) = Inr (length rows)"


text \<open>\<^verbatim>\<open>"node {}".format(i)\<close> writes \<open>i\<close> in decimal.\<close>

definition digit_char :: "nat \<Rightarrow> char" where
  "digit_char d = char_of (d + 48)"

fun decimal :: "nat \<Rightarrow> string" where
  "decimal n = (if 10 \<le> n then decimal (n div 10) else []) @ [digit_char (n mod 10)]"

text \<open>
  \<^verbatim>\<open>Graph.__init__\<close>. \<open>shape0 m\<close> is \<^verbatim>\<open>m.shape[0]\<close> of a matrix, and \<open>DataFrame a\<close> is
  pandas' \<^verbatim>\<open>pd.DataFrame(a, columns=[Graph.node_col])\<close>, a library call whose result
  the source does not determine. The attributes \<^verbatim>\<open>ch_to_adj\<close>, \<^verbatim>\<open>nodes\<close> and
  \<^verbatim>\<open>node_idxs\<close> are functions of the others and are left out.

  \<^verbatim>\<open>adjs[0].shape[0]\<close> is an IndexError on an empty list, an AttributeError on a list
  of names, a KeyError on a DataFrame (no column is labelled \<open>0\<close>) and a TypeError on
  None. \<^verbatim>\<open>self.nodelist[self.node_col]\<close> is a TypeError on a list.
\<close>

definition Graph_init ::
  "('m \<Rightarrow> nat) \<Rightarrow> ('m arg \<Rightarrow> exn + 'm arg) \<Rightarrow>
   'm arg \<Rightarrow> string list option \<Rightarrow> 'm arg \<Rightarrow> edge_row list option \<Rightarrow> exn + 'm graph" where
  "Graph_init shape0 DataFrame adjs0 channels0 nodelist0 edgelist0 =
     bind_exn
       (case channels0 of
          None \<Rightarrow> Inr (adjs0, nodelist0)
        | Some chs \<Rightarrow>
            bind_exn (py_len adjs0) (\<lambda>n.
              if n \<noteq> length chs
              then bind_exn (DataFrame adjs0) (\<lambda>frame. Inr (nodelist0, frame))
              else Inr (adjs0, nodelist0)))
       (\<lambda>(adjs1, nodelist1).
     bind_exn
       (case channels0 of
          None \<Rightarrow> Inr ()
        | Some chs \<Rightarrow>
            bind_exn (py_len adjs1) (\<lambda>n.
              if n \<noteq> length chs
              then Inl (PyException ''Unable to match adjs to channels'')
              else Inr ()))
       (\<lambda>_.
     case adjs1 of
       ArgNone \<Rightarrow> Inl TypeError
     | ArgNames [] \<Rightarrow> Inl IndexError
     | ArgNames (_ # _) \<Rightarrow> Inl AttributeError
     | ArgFrame _ \<Rightarrow> Inl KeyError
     | ArgMatrices [] \<Rightarrow> Inl IndexError
     | ArgMatrices (m # ms) \<Rightarrow>
         (let nn = shape0 m;
              nc = length (m # ms);
              chs = (case channels0 of
                       None \<Rightarrow> map (\<lambda>i. ''channel '' @ decimal i) [0..<nc]
                     | Some chs \<Rightarrow> chs)
          in bind_exn
               (case nodelist1 of
                  ArgNone \<Rightarrow> Inr (map (\<lambda>i. ''node '' @ decimal i) [0..<nn])
                | ArgFrame rows \<Rightarrow> Inr rows
                | _ \<Rightarrow> Inl TypeError)
               (\<lambda>nl. Inr \<lparr>n_nodes = nn, n_channels = nc, channels = chs,
                            adjs = m # ms, nodelist = nl, edgelist = edgelist0\<rparr>))))"

subsection \<open>Neighbours\<close>

text \<open>
  Sparse matrices add only when their shapes agree. \<^verbatim>\<open>sum(self.adjs)\<close> is the integer
  \<open>0\<close> when there is no matrix, and its transpose in \<^verbatim>\<open>sym_composite_adj\<close> is then
  an AttributeError.
\<close>

definition mat_add :: "matrix \<Rightarrow> matrix \<Rightarrow> exn + matrix" where
  "mat_add a b =
     (if n_rows_of a = n_rows_of b \<and> n_cols_of a = n_cols_of b
      then Inr (map2 (map2 (+)) a b)
      else Inl (ValueError ''inconsistent shapes''))"

definition mat_T :: "'a list list \<Rightarrow> 'a list list" where
  "mat_T m = map (\<lambda>j. map (\<lambda>row. row ! j) m) [0..<n_cols_of m]"

definition composite_adj :: "matrix graph \<Rightarrow> exn + matrix" where
  "composite_adj g =
     (case adjs g of
        [] \<Rightarrow> Inl AttributeError
      | a # rest \<Rightarrow> fold (\<lambda>b acc. bind_exn acc (\<lambda>s. mat_add s b)) rest (Inr a))"

definition sym_composite_adj :: "matrix graph \<Rightarrow> exn + matrix" where
  "sym_composite_adj g = bind_exn (composite_adj g) (\<lambda>c. mat_add c (mat_T c))"

definition is_nbr :: "matrix graph \<Rightarrow> exn + bool list list" where
  "is_nbr g = bind_exn (sym_composite_adj g) (\<lambda>s. Inr (map (map (\<lambda>x. 0 < x)) s))"




subsection \<open>Node cover\<close>

text \<open>
  Modelled from the spec: \<^verbatim>\<open>utils.one_hot\<close> is not among the sources and the spec does
  not describe it. It is taken as its name and its uses say: \<open>one_hot i n\<close> is the
  boolean vector of length \<open>n\<close> that is true at index \<open>i\<close> only.
\<close>

definition one_hot :: "nat \<Rightarrow> nat \<Rightarrow> bool list" where
  "one_hot i n = map (\<lambda>k. k = i) [0..<n]"

text \<open>\<^verbatim>\<open>xs[mask]\<close>: the entries where the mask is true.\<close>

definition select_mask :: "bool list \<Rightarrow> 'a list \<Rightarrow> 'a list" where
  "select_mask msk xs = map snd (filter fst (zip msk xs))"

text \<open>\<^verbatim>\<open>xs[mask] = vals\<close>: the values go, in order, to the entries where the mask is true.\<close>

fun assign_mask :: "'a list \<Rightarrow> bool list \<Rightarrow> 'a list \<Rightarrow> 'a list" where
  "assign_mask (x # xs) (True # msk) (v # vals) = v # assign_mask xs msk vals"
| "assign_mask (x # xs) (False # msk) vals = x # assign_mask xs msk vals"
| "assign_mask xs _ _ = xs"

definition count_true :: "bool list \<Rightarrow> nat" where
  "count_true msk = length (filter id msk)"

text \<open>\<^verbatim>\<open>m[mask, :][:, mask]\<close>, the count \<^verbatim>\<open>nnz\<close> of its true entries, and its column sums.\<close>

definition submatrix :: "bool list \<Rightarrow> 'a list list \<Rightarrow> 'a list list" where
  "submatrix msk m = map (select_mask msk) (select_mask msk m)"

definition nnz :: "bool list list \<Rightarrow> nat" where
  "nnz m = length (filter id (concat m))"

definition nbr_counts :: "bool list list \<Rightarrow> int list" where
  "nbr_counts m = sum_axis0 (map (map (\<lambda>b. if b then 1 else 0)) m)"

text \<open>\<^verbatim>\<open>np.argmax\<close>: the first index of the largest entry; a ValueError on no entries.\<close>

fun argmax_from :: "int list \<Rightarrow> nat \<Rightarrow> nat \<Rightarrow> int \<Rightarrow> nat" where
  "argmax_from [] k best bv = best"
| "argmax_from (x # xs) k best bv =
     (if bv < x then argmax_from xs (Suc k) k x else argmax_from xs (Suc k) best bv)"

definition argmax :: "int list \<Rightarrow> exn + nat" where
  "argmax xs =
     (case xs of
        [] \<Rightarrow> Inl (ValueError ''attempt to get argmax of an empty sequence'')
      | x # rest \<Rightarrow> Inr (argmax_from rest 1 0 x))"


definition edge_between :: "matrix graph \<Rightarrow> nat \<Rightarrow> nat \<Rightarrow> bool" where
  "edge_between g i j =
     list_ex (\<lambda>c. 0 < adjs g ! c ! i ! j \<or> 0 < adjs g ! c ! j ! i) [0..<n_channels g]"

text \<open>
  The loop of \<^verbatim>\<open>Graph.node_cover\<close>, with its two variables \<^verbatim>\<open>uncov\<close> and \<^verbatim>\<open>cover\<close>.
  Each round clears one true entry of \<^verbatim>\<open>uncov\<close>, which is why the loop ends; the
  lemmas before the function are what its termination proof needs.
\<close>

lemma argmax_from_less: "best < k \<Longrightarrow> argmax_from xs k best bv < k + length xs"
  by (induction xs k best bv rule: argmax_from.induct) (auto simp: less_Suc_eq)

lemma argmax_less: "argmax xs = Inr i \<Longrightarrow> i < length xs"
  using argmax_from_less[of 0 1] by (cases xs) (auto simp: argmax_def)

lemma length_nbr_counts: "length (nbr_counts m) = n_cols_of m"
  by (cases m) (simp_all add: nbr_counts_def sum_axis0_def n_cols_of_def)

lemma length_select_mask: "length (select_mask msk xs) \<le> count_true msk"
proof (induction msk arbitrary: xs)
  case Nil
  then show ?case by (simp add: select_mask_def count_true_def)
next
  case (Cons b msk)
  then show ?case 
    by (cases xs) (auto simp: select_mask_def count_true_def le_SucI)
qed

lemma n_cols_submatrix: "n_cols_of (submatrix msk m) \<le> count_true msk"
  by (cases "select_mask msk m") (simp_all add: submatrix_def n_cols_of_def length_select_mask)

lemma count_true_assign_self:
  "length vals = count_true u \<Longrightarrow> count_true (assign_mask u u vals) = count_true vals"
proof (induction u arbitrary: vals)
  case Nil
  then show ?case by (simp add: count_true_def)
next
  case (Cons b u)
  show ?case
  proof (cases b)
    case True
    with Cons.prems obtain v vs where vals: "vals = v # vs" "length vs = count_true u"
      by (cases vals) (auto simp: count_true_def)
    with Cons.IH[of vs] True show ?thesis by (simp add: count_true_def)
  next
    case False
    with Cons show ?thesis by (simp add: count_true_def)
  qed
qed

lemma count_true_not_one_hot:
  "i < k \<Longrightarrow> count_true (map Not (one_hot i k)) = k - 1"
proof (induction k)
  case 0
  then show ?case by simp
next
  case (Suc k)
  show ?case
  proof (cases "i < k")
    case True
    with Suc.IH show ?thesis by (simp add: one_hot_def count_true_def)
  next
    case False
    with Suc.prems have "i = k" by simp
    then have "filter id (map Not (one_hot i k)) = map Not (one_hot i k)"
      by (auto simp: one_hot_def filter_id_conv)
    with \<open>i = k\<close> show ?thesis by (simp add: one_hot_def count_true_def)
  qed
qed

lemma cover_step_decreases:
  assumes "i < count_true u"
  shows "count_true (assign_mask u u (map Not (one_hot i (count_true u)))) < count_true u"
proof -
  have "length (map Not (one_hot i (count_true u))) = count_true u"
    by (simp add: one_hot_def)
  then have "count_true (assign_mask u u (map Not (one_hot i (count_true u))))
      = count_true (map Not (one_hot i (count_true u)))"
    by (rule count_true_assign_self)
  with assms show ?thesis by (simp add: count_true_not_one_hot)
qed

function node_cover_loop :: "bool list list \<Rightarrow> bool list \<Rightarrow> nat list \<Rightarrow> exn + nat list" where
  "node_cover_loop nb uncov cover =
     (if nnz (submatrix uncov nb) \<noteq> 0
      then (case argmax (nbr_counts (submatrix uncov nb)) of
              Inl e \<Rightarrow> Inl e
            | Inr imax \<Rightarrow>
                node_cover_loop nb
                  (assign_mask uncov uncov (map Not (one_hot imax (count_true uncov))))
                  (cover @ [imax]))
      else Inr cover)"
  by pat_completeness auto
termination
proof (relation "measure (\<lambda>(nb, uncov, cover). count_true uncov)")
  show "wf (measure (\<lambda>(nb, uncov, cover). count_true uncov))" by simp
next
  fix nb :: "bool list list" and uncov :: "bool list" and cover :: "nat list" and imax
  assume "argmax (nbr_counts (submatrix uncov nb)) = Inr imax"
  then have "imax < n_cols_of (submatrix uncov nb)"
    using argmax_less length_nbr_counts by metis
  then have "imax < count_true uncov"
    using n_cols_submatrix[of uncov nb] by simp
  then show "((nb, assign_mask uncov uncov (map Not (one_hot imax (count_true uncov))), cover @ [imax]),
              (nb, uncov, cover)) \<in> measure (\<lambda>(nb, uncov, cover). count_true uncov)"
    by (simp add: cover_step_decreases)
qed

declare node_cover_loop.simps [simp del]

definition node_cover :: "matrix graph \<Rightarrow> exn + nat list" where
  "node_cover g = bind_exn (is_nbr g) (\<lambda>nb. node_cover_loop nb (replicate (n_nodes g) True) [])"

subsection \<open>Subgraphs\<close>

text \<open>
  \<^verbatim>\<open>loopless_subgraph\<close> writes into matrices, and every subgraph method builds a Graph
  object, so matrices and Graph objects live in a heap: a reference is an index into
  one of its two lists, a new object is appended, and an assignment into a matrix
  replaces the entry of the list. A Graph object holds references to its matrices.
  The channel list, the node list and the edge list stay values: no statement of
  \<^verbatim>\<open>graph.py\<close> assigns into one. Every method returns the heap it leaves behind, also
  when it raises.
\<close>

type_synonym ref = nat
type_synonym store = "matrix list"

record heap =
  matrices :: store
  graphs :: "ref graph list"

definition alloc :: "store \<Rightarrow> matrix \<Rightarrow> store \<times> ref" where
  "alloc s m = (s @ [m], length s)"

text \<open>\<^verbatim>\<open>[adj.copy() for adj in self.adjs]\<close>\<close>

fun copy_all :: "store \<Rightarrow> ref list \<Rightarrow> store \<times> ref list" where
  "copy_all s [] = (s, [])"
| "copy_all s (a # rest) =
     (let (s1, r) = alloc s (s ! a);
          (s2, rs) = copy_all s1 rest
      in (s2, r # rs))"

text \<open>
  \<^verbatim>\<open>nonzero, = adj.diagonal().nonzero(); adj[nonzero, nonzero] = 0\<close>, on a matrix and then
  on every matrix of a list of references.
\<close>

definition zero_diagonal :: "matrix \<Rightarrow> matrix" where
  "zero_diagonal m =
     fold (\<lambda>k m'. m'[k := (m' ! k)[k := 0]])
          (filter (\<lambda>k. diagonal m ! k \<noteq> 0) [0..<length (diagonal m)]) m"

definition zero_diagonals :: "store \<Rightarrow> ref list \<Rightarrow> store" where
  "zero_diagonals s refs = fold (\<lambda>r s'. s'[r := zero_diagonal (s' ! r)]) refs s"

text \<open>
  The expression \<^verbatim>\<open>Graph(adjs, channels, nodelist, edgelist)\<close>: a new object, which
  \<^verbatim>\<open>__init__\<close> fills; its reference is the value. When \<^verbatim>\<open>__init__\<close> raises there is no
  value and the object is not kept.
\<close>

definition Graph_new ::
  "(ref arg \<Rightarrow> exn + ref arg) \<Rightarrow> store \<Rightarrow> ref graph list \<Rightarrow>
   ref arg \<Rightarrow> string list option \<Rightarrow> ref arg \<Rightarrow> edge_row list option \<Rightarrow> heap \<times> (exn + ref)" where
  "Graph_new DataFrame s gs adjs0 channels0 nodelist0 edgelist0 =
     (case Graph_init (\<lambda>r. length (s ! r)) DataFrame adjs0 channels0 nodelist0 edgelist0 of
        Inl e \<Rightarrow> (\<lparr>matrices = s, graphs = gs\<rparr>, Inl e)
      | Inr g \<Rightarrow> (\<lparr>matrices = s, graphs = gs @ [g]\<rparr>, Inr (length gs)))"

definition loopless_subgraph ::
  "(ref arg \<Rightarrow> exn + ref arg) \<Rightarrow> heap \<Rightarrow> ref \<Rightarrow> heap \<times> (exn + ref)" where
  "loopless_subgraph DataFrame h self =
     (let g = graphs h ! self;
          (s1, new_adjs) = copy_all (matrices h) (adjs g);
          s2 = zero_diagonals s1 new_adjs;
          new_edgelist =
            (case edgelist g of
               Some rows \<Rightarrow> Some (filter (\<lambda>(src, tgt, ch). src \<noteq> tgt) rows)
             | None \<Rightarrow> None)
      in Graph_new DataFrame s2 (graphs h)
           (ArgMatrices new_adjs) (Some (channels g)) (ArgFrame (nodelist g)) new_edgelist)"

text \<open>
  Positional indexing by an integer array, as numpy and \<^verbatim>\<open>DataFrame.iloc\<close> do it: a
  negative index counts from the end, an index out of range is an IndexError.
\<close>

definition norm_index :: "nat \<Rightarrow> int \<Rightarrow> exn + nat" where
  "norm_index n i =
     (if 0 \<le> i \<and> i < int n then Inr (nat i)
      else if - int n \<le> i \<and> i < 0 then Inr (nat (int n + i))
      else Inl IndexError)"

fun mapM_exn :: "('a \<Rightarrow> exn + 'b) \<Rightarrow> 'a list \<Rightarrow> exn + 'b list" where
  "mapM_exn f [] = Inr []"
| "mapM_exn f (x # xs) = bind_exn (f x) (\<lambda>y. bind_exn (mapM_exn f xs) (\<lambda>ys. Inr (y # ys)))"

definition take_idxs :: "'a list \<Rightarrow> int list \<Rightarrow> exn + 'a list" where
  "take_idxs xs idxs = mapM_exn (\<lambda>i. bind_exn (norm_index (length xs) i) (\<lambda>k. Inr (xs ! k))) idxs"

text \<open>\<^verbatim>\<open>adj[node_idxs, :][:, node_idxs]\<close>\<close>

definition index_matrix :: "matrix \<Rightarrow> int list \<Rightarrow> exn + matrix" where
  "index_matrix m idxs =
     bind_exn (take_idxs m idxs) (\<lambda>rows. mapM_exn (\<lambda>row. take_idxs row idxs) rows)"

text \<open>\<^verbatim>\<open>[adj[node_idxs, :][:, node_idxs] for adj in self.adjs]\<close>: each result is a new matrix.\<close>

fun index_all :: "store \<Rightarrow> ref list \<Rightarrow> int list \<Rightarrow> store \<times> (exn + ref list)" where
  "index_all s [] idxs = (s, Inr [])"
| "index_all s (a # rest) idxs =
     (case index_matrix (s ! a) idxs of
        Inl e \<Rightarrow> (s, Inl e)
      | Inr m \<Rightarrow>
          (let (s1, r) = alloc s m in
           case index_all s1 rest idxs of
             (s2, Inl e) \<Rightarrow> (s2, Inl e)
           | (s2, Inr rs) \<Rightarrow> (s2, Inr (r # rs))))"

definition node_subgraph ::
  "(ref arg \<Rightarrow> exn + ref arg) \<Rightarrow> heap \<Rightarrow> ref \<Rightarrow> int list \<Rightarrow> heap \<times> (exn + ref)" where
  "node_subgraph DataFrame h self node_idxs =
     (let g = graphs h ! self
      in case index_all (matrices h) (adjs g) node_idxs of
           (s1, Inl e) \<Rightarrow> (\<lparr>matrices = s1, graphs = graphs h\<rparr>, Inl e)
         | (s1, Inr new_adjs) \<Rightarrow>
             (case take_idxs (nodelist g) node_idxs of
                Inl e \<Rightarrow> (\<lparr>matrices = s1, graphs = graphs h\<rparr>, Inl e)
              | Inr nodes \<Rightarrow>
                  (let new_edgelist =
                         (case edgelist g of
                            Some rows \<Rightarrow>
                              Some (filter (\<lambda>(src, tgt, ch). src \<in> set nodes \<and> tgt \<in> set nodes) rows)
                          | None \<Rightarrow> None)
                   in Graph_new DataFrame s1 (graphs h)
                        (ArgMatrices new_adjs) (Some (channels g)) (ArgFrame nodes) new_edgelist)))"

text \<open>\<^verbatim>\<open>xs.index(x)\<close>: the first position of \<open>x\<close>, a ValueError when there is none.\<close>

fun list_index :: "'a list \<Rightarrow> 'a \<Rightarrow> exn + nat" where
  "list_index [] x = Inl (ValueError ''is not in list'')"
| "list_index (y # ys) x =
     (if y = x then Inr 0 else bind_exn (list_index ys x) (\<lambda>k. Inr (Suc k)))"

definition channel_subgraph ::
  "(ref arg \<Rightarrow> exn + ref arg) \<Rightarrow> heap \<Rightarrow> ref \<Rightarrow> string list \<Rightarrow> heap \<times> (exn + ref)" where
  "channel_subgraph DataFrame h self chs =
     (let g = graphs h ! self
      in case mapM_exn (\<lambda>ch. bind_exn (list_index (channels g) ch) (\<lambda>k.
                          if k < length (adjs g) then Inr (adjs g ! k) else Inl IndexError)) chs of
           Inl e \<Rightarrow> (h, Inl e)
         | Inr new_adjs \<Rightarrow>
             (let new_edgelist =
                    (case edgelist g of
                       Some rows \<Rightarrow> Some (filter (\<lambda>(src, tgt, ch). ch \<in> set chs) rows)
                     | None \<Rightarrow> None)
              in Graph_new DataFrame (matrices h) (graphs h)
                   (ArgMatrices new_adjs) (Some chs) (ArgFrame (nodelist g)) new_edgelist))"

text \<open>
  What a graph of references stands for in a store: the graph of the matrices its
  references point to. The references of a graph are valid when they are indices of
  the store.
\<close>

definition graph_view :: "store \<Rightarrow> ref graph \<Rightarrow> matrix graph" where
  "graph_view s g =
     \<lparr>n_nodes = n_nodes g, n_channels = n_channels g, channels = channels g,
      adjs = map (\<lambda>r. s ! r) (adjs g), nodelist = nodelist g, edgelist = edgelist g\<rparr>"

definition refs_valid :: "store \<Rightarrow> ref graph \<Rightarrow> bool" where
  "refs_valid s g = list_all (\<lambda>r. r < length s) (adjs g)"

text \<open>
  A call leaves the original unchanged: every matrix and every Graph object of the
  heap \<open>h\<close> before the call is in the heap \<open>h'\<close> after it, at its place and as it was,
  and so the Graph object \<open>self\<close> stands for the graph it stood for.
\<close>

definition unchanged :: "heap \<Rightarrow> ref \<Rightarrow> heap \<Rightarrow> bool" where
  "unchanged h self h' =
     (take (length (matrices h)) (matrices h') = matrices h \<and>
      take (length (graphs h)) (graphs h') = graphs h \<and>
      graph_view (matrices h') (graphs h' ! self) = graph_view (matrices h) (graphs h ! self))"

text \<open>
  A call returns a new Graph: its value is a reference that the heap before the call
  did not have, to the one Graph object that the heap has more after the call; \<open>g'\<close>
  is the graph that object stands for.
\<close>

definition returns_new :: "heap \<Rightarrow> heap \<times> (exn + ref) \<Rightarrow> matrix graph \<Rightarrow> bool" where
  "returns_new h res g' =
     (snd res = Inr (length (graphs h)) \<and>
      length (graphs (fst res)) = Suc (length (graphs h)) \<and>
      graph_view (matrices (fst res)) (graphs (fst res) ! length (graphs h)) = g')"

text \<open>
  The invariant of the data model for a Graph object of a heap: the graph it stands
  for is well formed, with a name for every channel and for every node. Node indices
  are in range when numpy accepts them for an axis of length \<open>n\<close>.
\<close>

definition data_model :: "heap \<Rightarrow> ref \<Rightarrow> bool" where
  "data_model h self =
     (wf_graph (graph_view (matrices h) (graphs h ! self)) \<and>
      length (channels (graphs h ! self)) = n_channels (graphs h ! self) \<and>
      length (nodelist (graphs h ! self)) = n_nodes (graphs h ! self))"

definition in_range :: "nat \<Rightarrow> int list \<Rightarrow> bool" where
  "in_range n idxs = list_all (\<lambda>i. - int n \<le> i \<and> i < int n) idxs"

text \<open>The first position of \<open>x\<close> in \<open>xs\<close>, which \<^verbatim>\<open>xs.index(x)\<close> is when \<open>x\<close> occurs.\<close>

definition first_pos :: "'a list \<Rightarrow> 'a \<Rightarrow> nat" where
  "first_pos xs x = length (takeWhile (\<lambda>y. y \<noteq> x) xs)"

subsection \<open>Example graphs\<close>

text \<open>
  The template graph of the fixture \<^verbatim>\<open>smp_node_cover\<close> of \<^verbatim>\<open>tests/test_counting.py\<close>,
  the two matrices of the fixture \<^verbatim>\<open>smp\<close>, pandas' DataFrame constructor on a list of
  node names, and a heap of one Graph object whose one matrix has two self-edges.
\<close>

definition tmplt_node_cover :: "matrix graph" where
  "tmplt_node_cover =
     \<lparr>n_nodes = 5, n_channels = 2, channels = [''c1'', ''c2''],
      adjs = [[[0, 1, 0, 1, 0],
               [0, 0, 1, 0, 0],
               [0, 0, 0, 0, 0],
               [0, 0, 1, 0, 0],
               [0, 1, 0, 1, 0]],
              [[0, 0, 1, 0, 0],
               [0, 0, 0, 0, 0],
               [0, 0, 0, 0, 0],
               [0, 0, 0, 0, 0],
               [0, 0, 1, 0, 0]]],
      nodelist = [''a'', ''b'', ''c'', ''d'', ''e''], edgelist = None\<rparr>"

definition smp_adj0 :: matrix where
  "smp_adj0 = [[0, 0, 0], [1, 0, 0], [0, 0, 0]]"

definition smp_adj1 :: matrix where
  "smp_adj1 = [[0, 0, 0], [0, 0, 0], [0, 1, 0]]"

definition DataFrame_of_names :: "'m arg \<Rightarrow> exn + 'm arg" where
  "DataFrame_of_names a = (case a of ArgNames ns \<Rightarrow> Inr (ArgFrame ns) | _ \<Rightarrow> Inl TypeError)"

definition loop_store :: store where
  "loop_store = [[[1, 1], [0, 2]]]"

definition loop_graph :: "ref graph" where
  "loop_graph =
     \<lparr>n_nodes = 2, n_channels = 1, channels = [''c1''], adjs = [0],
      nodelist = [''a'', ''b''], edgelist = Some [(''a'', ''a'', ''c1''), (''a'', ''b'', ''c1'')]\<rparr>"

definition loop_heap :: heap where
  "loop_heap = \<lparr>matrices = loop_store, graphs = [loop_graph]\<rparr>"

section \<open>Costs\<close>

text \<open>
  An entry of a cost matrix is a double. The embedding keeps the values that decide the
  control flow of \<^verbatim>\<open>lsap.py\<close>: a finite number (an integer here; rounding is not
  modelled), \<open>+inf\<close>, \<open>-inf\<close> and NaN. Addition, subtraction and comparison follow
  IEEE 754 on these.
\<close>

datatype cost = Fin int | PInf | NInf | NaN

instantiation cost :: comm_monoid_add
begin

definition zero_cost :: cost where
  "zero_cost = Fin 0"

fun plus_cost :: "cost \<Rightarrow> cost \<Rightarrow> cost" where
  "plus_cost (Fin a) (Fin b) = Fin (a + b)"
| "plus_cost NaN _ = NaN"
| "plus_cost _ NaN = NaN"
| "plus_cost PInf NInf = NaN"
| "plus_cost NInf PInf = NaN"
| "plus_cost PInf _ = PInf"
| "plus_cost _ PInf = PInf"
| "plus_cost NInf _ = NInf"
| "plus_cost _ NInf = NInf"

instance
proof
  fix x y z :: cost
  show comm: "x + y = y + x"
    by (cases x; cases y; simp)
  show "0 + x = x"
    unfolding zero_cost_def by (cases x; simp)
  show "(x + y) + z = x + (y + z)"
    by (cases x; cases y; cases z; simp)
qed

end

fun cneg :: "cost \<Rightarrow> cost" where
  "cneg (Fin a) = Fin (- a)"
| "cneg PInf = NInf"
| "cneg NInf = PInf"
| "cneg NaN = NaN"

definition csub :: "cost \<Rightarrow> cost \<Rightarrow> cost" where
  "csub a b = a + cneg b"

text \<open>\<^verbatim>\<open>a < b\<close> and \<^verbatim>\<open>a != b\<close> on doubles: a comparison with NaN is false, NaN differs from all.\<close>

fun cless :: "cost \<Rightarrow> cost \<Rightarrow> bool" where
  "cless NaN _ = False"
| "cless _ NaN = False"
| "cless (Fin a) (Fin b) = (a < b)"
| "cless NInf NInf = False"
| "cless NInf _ = True"
| "cless _ NInf = False"
| "cless PInf _ = False"
| "cless _ PInf = True"

definition cne :: "cost \<Rightarrow> cost \<Rightarrow> bool" where
  "cne a b = (a = NaN \<or> b = NaN \<or> a \<noteq> b)"

text \<open>
  \<^verbatim>\<open>np.argmin\<close> of a row: the first index of the least entry, the first NaN if there is
  one. It is never applied to an empty row here (a matrix with a row has at least as
  many columns as rows where it is used), where numpy raises; the model returns \<open>0\<close>.
\<close>

fun argmin_from :: "cost list \<Rightarrow> nat \<Rightarrow> nat \<Rightarrow> cost \<Rightarrow> nat" where
  "argmin_from [] k best bv = best"
| "argmin_from (x # xs) k best bv =
     (if bv \<noteq> NaN \<and> (x = NaN \<or> cless x bv)
      then argmin_from xs (Suc k) k x
      else argmin_from xs (Suc k) best bv)"

definition argmin :: "cost list \<Rightarrow> nat" where
  "argmin xs = (case xs of [] \<Rightarrow> 0 | x # rest \<Rightarrow> argmin_from rest 1 0 x)"

section \<open>The assignment solver\<close>

text \<open>
  Modelled from the spec: \<^verbatim>\<open>lap\<close> is \<^verbatim>\<open>scipy.optimize.linear_sum_assignment\<close>, a
  library function that is not among the sources. The spec calls it the solver of "the
  unconstrained optimal assignment" that fails on an infeasible matrix and on a
  malformed one; the library's documentation adds the shape of the result. \<open>lap m\<close>
  pairs every row with a column of its own when there are at most as many rows as
  columns, and every column with a row of its own otherwise, at the least total cost;
  the row indices it returns are sorted. It raises
  ValueError("matrix contains invalid numeric entries") on a NaN or \<open>-inf\<close> entry and
  ValueError("cost matrix is infeasible") when every assignment costs \<open>+inf\<close>.
  The model searches all assignments and returns the first of least cost; which one
  scipy returns among several of the same cost is not documented.
\<close>

definition valid_cost :: "cost \<Rightarrow> bool" where
  "valid_cost x = (x \<noteq> NaN \<and> x \<noteq> NInf)"

text \<open>All lists of \<open>r\<close> pairwise distinct columns out of \<open>cs\<close>: entry \<open>i\<close> is the column of row \<open>i\<close>.\<close>

fun assignments :: "nat \<Rightarrow> nat list \<Rightarrow> nat list list" where
  "assignments 0 cs = [[]]"
| "assignments (Suc r) cs =
     concat (map (\<lambda>c. map ((#) c) (assignments r (removeAll c cs))) cs)"

definition assignment_cost :: "cost list list \<Rightarrow> nat list \<Rightarrow> cost" where
  "assignment_cost m a = sum_list (map (\<lambda>(i, j). m ! i ! j) (zip [0..<length a] a))"

fun least_by :: "('a \<Rightarrow> cost) \<Rightarrow> 'a \<Rightarrow> 'a list \<Rightarrow> 'a" where
  "least_by f b [] = b"
| "least_by f b (x # xs) = least_by f (if cless (f x) (f b) then x else b) xs"

definition best_assignment :: "cost list list \<Rightarrow> nat list option" where
  "best_assignment m =
     (case assignments (n_rows_of m) [0..<n_cols_of m] of
        [] \<Rightarrow> None
      | a # rest \<Rightarrow> Some (least_by (assignment_cost m) a rest))"

definition infeasible :: exn where
  "infeasible = ValueError ''cost matrix is infeasible''"

definition lap :: "cost list list \<Rightarrow> exn + (nat list \<times> nat list)" where
  "lap m =
     (if \<not> list_all (list_all valid_cost) m
      then Inl (ValueError ''matrix contains invalid numeric entries'')
      else if n_rows_of m \<le> n_cols_of m
      then (case best_assignment m of
              None \<Rightarrow> Inl infeasible
            | Some a \<Rightarrow>
                if assignment_cost m a = PInf then Inl infeasible
                else Inr ([0..<n_rows_of m], a))
      else (case best_assignment (mat_T m) of
              None \<Rightarrow> Inl infeasible
            | Some b \<Rightarrow>
                if assignment_cost (mat_T m) b = PInf then Inl infeasible
                else (let pairs = sort_key fst (zip b [0..<length b])
                      in Inr (map fst pairs, map snd pairs))))"

section \<open>Constrained assignment costs\<close>

text \<open>\<^verbatim>\<open>costs[rows, cols]\<close>: the entries at the paired positions. A column index may be
  negative, and then counts from the end, as \<open>-1\<close> does in \<^verbatim>\<open>col_idxs\<close>.\<close>

definition py_nth :: "'a list \<Rightarrow> int \<Rightarrow> 'a" where
  "py_nth xs i = (if i < 0 then xs ! nat (int (length xs) + i) else xs ! nat i)"

definition py_update :: "'a list \<Rightarrow> int \<Rightarrow> 'a \<Rightarrow> 'a list" where
  "py_update xs i v = (if i < 0 then xs[nat (int (length xs) + i) := v] else xs[nat i := v])"

definition fancy :: "'a list list \<Rightarrow> nat list \<Rightarrow> int list \<Rightarrow> 'a list" where
  "fancy m rows cols = map (\<lambda>(r, c). py_nth (m ! r) c) (zip rows cols)"

text \<open>\<^verbatim>\<open>m[rows, cols] = v\<close>\<close>

definition set_entries :: "'a list list \<Rightarrow> nat list \<Rightarrow> int list \<Rightarrow> 'a \<Rightarrow> 'a list list" where
  "set_entries m rows cols v =
     fold (\<lambda>(r, c) m'. m'[r := py_update (m' ! r) c v]) (zip rows cols) m"

text \<open>\<^verbatim>\<open>costs[:, cols]\<close>, \<^verbatim>\<open>np.arange\<close>, \<^verbatim>\<open>np.setdiff1d\<close> and \<^verbatim>\<open>np.union1d\<close> (both sorted,
  without repetitions).\<close>

definition take_cols :: "'a list list \<Rightarrow> int list \<Rightarrow> 'a list list" where
  "take_cols m cols = map (\<lambda>row. map (py_nth row) cols) m"

definition arange :: "nat \<Rightarrow> int list" where
  "arange n = map int [0..<n]"

definition setdiff1d :: "int list \<Rightarrow> int list \<Rightarrow> int list" where
  "setdiff1d xs ys = sort (remdups (filter (\<lambda>x. x \<notin> set ys) xs))"

definition union1d :: "int list \<Rightarrow> int list \<Rightarrow> int list" where
  "union1d xs ys = sort (remdups (xs @ ys))"

text \<open>\<^verbatim>\<open>costs[~one_hot(i, n_rows), :][:, ~one_hot(j, n_cols)]\<close>: without row \<open>i\<close> and column \<open>j\<close>.\<close>

definition remove_row_col :: "nat \<Rightarrow> nat \<Rightarrow> 'a list list \<Rightarrow> 'a list list" where
  "remove_row_col i j costs =
     map (select_mask (map Not (one_hot j (n_cols_of costs))))
         (select_mask (map Not (one_hot i (n_rows_of costs))) costs)"

text \<open>
  \<^verbatim>\<open>constrained_lsap_cost(i, j, costs)\<close>: the assignment problem without row \<open>i\<close> and
  column \<open>j\<close>, plus the cost of the pair.
\<close>

definition constrained_lsap_cost :: "nat \<Rightarrow> nat \<Rightarrow> cost list list \<Rightarrow> exn + cost" where
  "constrained_lsap_cost i j costs =
     (let sub_costs = remove_row_col i j costs
      in case lap sub_costs of
           Inl e \<Rightarrow> if e = infeasible then Inr PInf else Inl e
         | Inr (sub_row_ind, sub_col_ind) \<Rightarrow>
             Inr (sum_list (fancy sub_costs sub_row_ind (map int sub_col_ind)) + costs ! i ! j))"

text \<open>
  The assignments a claim speaks of: \<open>r\<close> rows, each with a column below \<open>c\<close>, no column
  twice. \<open>a ! i\<close> is the column of row \<open>i\<close>. \<^verbatim>\<open>a <= b\<close> on doubles is \<open>cle\<close>.
\<close>

definition is_assignment :: "nat \<Rightarrow> nat \<Rightarrow> nat list \<Rightarrow> bool" where
  "is_assignment r c a = (length a = r \<and> distinct a \<and> list_all (\<lambda>j. j < c) a)"

definition cle :: "cost \<Rightarrow> cost \<Rightarrow> bool" where
  "cle a b = (cless a b \<or> (a = b \<and> a \<noteq> NaN))"

text \<open>A cost matrix of shape \<open>r \<times> c\<close> without NaN and \<open>-inf\<close>.\<close>

definition cost_matrix :: "nat \<Rightarrow> nat \<Rightarrow> cost list list \<Rightarrow> bool" where
  "cost_matrix r c costs =
     (length costs = r \<and> list_all (\<lambda>row. length row = c \<and> list_all valid_cost row) costs)"

text \<open>
  The sums of the embedding are exact, on integers without bound. Those of the code are
  sums of numbers of the type that the array holds: \<^verbatim>\<open>int64\<close> sums wrap around, and
  floating-point sums round beyond \<open>2^p\<close>, where \<open>p\<close> is the precision of the type, 53
  for \<^verbatim>\<open>float64\<close>, 24 for \<^verbatim>\<open>float32\<close>, 11 for \<^verbatim>\<open>float16\<close>; the solver works on
  \<^verbatim>\<open>float64\<close> whatever the array holds, so \<open>p\<close> is 53 for \<^verbatim>\<open>int64\<close> too. The code and
  the embedding agree on a matrix whose finite entries have magnitudes that add up to
  at most \<open>2^p\<close>: every sum that the code forms of entries of such a matrix, in
  whatever order, is an integer of at most that magnitude, which the type holds
  exactly.
\<close>

fun magnitude :: "cost \<Rightarrow> nat" where
  "magnitude (Fin a) = nat \<bar>a\<bar>"
| "magnitude _ = 0"

definition exact_costs :: "nat \<Rightarrow> cost list list \<Rightarrow> bool" where
  "exact_costs p costs = (sum_list (map magnitude (concat costs)) \<le> 2 ^ p)"

text \<open>The index in a list of the entry that takes place \<open>k\<close> once entry \<open>i\<close> is removed.\<close>

definition skip_index :: "nat \<Rightarrow> nat \<Rightarrow> nat" where
  "skip_index i k = (if k < i then k else Suc k)"

text \<open>
  \<^verbatim>\<open>constrained_lsap_costs\<close>. What it computes before its loops is kept in a record:
  the solution of the unconstrained problem and the three cheapest columns of every
  row.
\<close>

record lsap_ctx =
  ctx_costs :: "cost list list"
  row_idxs :: "nat list"
  lsap_col_idxs :: "int list"
  lsap_costs :: "cost list"
  best_col_idxs :: "int list"
  second_best_col_idxs :: "int list"
  third_best_col_idxs :: "int list"
  potential_cols :: "int list"

text \<open>
  One round of the inner loop \<^verbatim>\<open>for other_i, stolen_j in enumerate(col_idxs)\<close>, for the
  constrained row \<open>i\<close>. The round changes \<^verbatim>\<open>col_idxs\<close> and restores it at its end, so
  every round starts from the same \<open>col_idxs\<close> and only \<^verbatim>\<open>total_costs\<close> is passed on.
  \<^verbatim>\<open>np.argwhere(potential_cols == stolen_j)[0]\<close> is an IndexError when the column is
  not among them.
\<close>

definition inner_round ::
  "lsap_ctx \<Rightarrow> nat \<Rightarrow> int list \<Rightarrow> nat \<Rightarrow> cost list list \<Rightarrow> exn + cost list list" where
  "inner_round ctx i col_idxs other_i total_costs =
     (if other_i = i then Inr total_costs
      else
        (let costs = ctx_costs ctx;
             stolen_j = col_idxs ! other_i;
             col_idxs1 = (col_idxs[i := stolen_j])[other_i := - 1];
             best_j = best_col_idxs ctx ! other_i;
             second_best_j = second_best_col_idxs ctx ! other_i;
             third_best_j = third_best_col_idxs ctx ! other_i
         in if best_j \<noteq> stolen_j \<and> best_j \<notin> set col_idxs1 \<and>
               (cne (py_nth (costs ! other_i) best_j) (py_nth (costs ! other_i) second_best_j)
                \<or> second_best_j \<notin> set col_idxs1)
            then (let col_idxs2 = col_idxs1[other_i := best_j]
                  in Inr (total_costs[i := py_update (total_costs ! i) stolen_j
                            (sum_list (fancy costs (row_idxs ctx) col_idxs2))]))
            else if second_best_j \<notin> set col_idxs1 \<and>
               (cne (py_nth (costs ! other_i) second_best_j) (py_nth (costs ! other_i) third_best_j)
                \<or> third_best_j \<notin> set col_idxs1)
            then (let col_idxs2 = col_idxs1[other_i := second_best_j]
                  in Inr (total_costs[i := py_update (total_costs ! i) stolen_j
                            (sum_list (fancy costs (row_idxs ctx) col_idxs2))]))
            else (let sub_costs = take_cols costs (potential_cols ctx)
                  in case filter (\<lambda>k. potential_cols ctx ! k = stolen_j)
                            [0..<length (potential_cols ctx)] of
                       [] \<Rightarrow> Inl IndexError
                     | sub_j # _ \<Rightarrow>
                         bind_exn (constrained_lsap_cost i sub_j sub_costs) (\<lambda>total_cost.
                           Inr (total_costs[i := py_update (total_costs ! i) stolen_j total_cost])))))"

text \<open>
  One round of the outer loop \<^verbatim>\<open>for i, freed_j in enumerate(lsap_col_idxs)\<close>. The call
  of \<^verbatim>\<open>lap\<close> in it is outside any \<^verbatim>\<open>try\<close>: whatever it raises is raised by the round.
  \<^verbatim>\<open>np.setdiff1d(lsap_col_idxs, col_idxs)[0]\<close> is an IndexError when nothing is left.
\<close>

definition outer_round :: "lsap_ctx \<Rightarrow> nat \<Rightarrow> cost list list \<Rightarrow> exn + cost list list" where
  "outer_round ctx i total_costs0 =
     (let costs = ctx_costs ctx;
          n_rows = n_rows_of costs;
          freed_j = lsap_col_idxs ctx ! i;
          col_idxs0 = (lsap_col_idxs ctx)[i := - 1];
          freed_col_costs = map (\<lambda>row. py_nth row freed_j) costs
      in bind_exn
           (if list_ex (\<lambda>(a, b). cless a b) (zip freed_col_costs (lsap_costs ctx))
            then (let sub_ind = map Not (one_hot i n_rows);
                      sub_costs = take_cols (select_mask sub_ind costs) (lsap_col_idxs ctx)
                  in bind_exn (lap sub_costs) (\<lambda>(sub_row_ind, sub_col_ind).
                       (let sub_total_cost =
                              sum_list (fancy sub_costs sub_row_ind (map int sub_col_ind));
                            col_idxs1 = assign_mask col_idxs0 sub_ind
                                          (map (\<lambda>k. lsap_col_idxs ctx ! k) sub_col_ind)
                        in Inr (col_idxs1,
                                total_costs0[i := map (\<lambda>x. x + sub_total_cost) (costs ! i)]))))
            else Inr (col_idxs0, total_costs0))
           (\<lambda>(col_idxs1, total_costs1).
              case setdiff1d (lsap_col_idxs ctx) col_idxs1 of
                [] \<Rightarrow> Inl IndexError
              | free_j # _ \<Rightarrow>
                  (let col_idxs2 = col_idxs1[i := free_j];
                       total_costs2 = total_costs1[i := py_update (total_costs1 ! i) free_j
                                        (sum_list (fancy costs (row_idxs ctx) col_idxs2))];
                       col_idxs3 = col_idxs2[i := - 1]
                   in fold (\<lambda>other_i acc. bind_exn acc (inner_round ctx i col_idxs3 other_i))
                           [0..<length col_idxs3] (Inr total_costs2))))"

text \<open>
  The function itself. A matrix with more rows than columns is transposed, solved and
  transposed back; the lists of rows cannot tell a matrix of no columns from one of no
  rows, which is the one shape the transposition loses. So a matrix without rows or
  without columns is outside the embedding: numpy keeps both dimensions of it, and
  \<^verbatim>\<open>argmin\<close> raises on the shape \<open>0 \<times> 0\<close>, where the embedding returns the empty list.
\<close>

lemma n_rows_mat_T: "n_rows_of (mat_T m) = n_cols_of m"
  by (simp add: n_rows_of_def mat_T_def)

lemma n_cols_mat_T: "n_cols_of (mat_T m) = (if n_cols_of m = 0 then 0 else n_rows_of m)"
proof (cases "n_cols_of m")
  case 0
  then show ?thesis by (simp add: mat_T_def n_cols_of_def)
next
  case (Suc k)
  then have "[0..<n_cols_of m] = 0 # [1..<Suc k]" by (simp add: upt_rec)
  then show ?thesis using Suc by (simp add: mat_T_def n_cols_of_def n_rows_of_def)
qed

function constrained_lsap_costs :: "cost list list \<Rightarrow> exn + cost list list" where
  "constrained_lsap_costs costs =
     (let n_rows = n_rows_of costs;
          n_cols = n_cols_of costs
      in if n_rows > n_cols
         then bind_exn (constrained_lsap_costs (mat_T costs)) (\<lambda>t. Inr (mat_T t))
         else
           (case lap costs of
              Inl e \<Rightarrow>
                if e = infeasible then Inr (replicate n_rows (replicate n_cols PInf))
                else Inl e
            | Inr (rows, cols) \<Rightarrow>
                (let lsap_cols = map int cols;
                     lsap_cs = fancy costs rows lsap_cols;
                     lsap_total_cost = sum_list lsap_cs;
                     best = map (\<lambda>row. int (argmin row)) costs;
                     costs1 = set_entries costs rows best PInf;
                     second_best = map (\<lambda>row. int (argmin row)) costs1;
                     costs2 = set_entries costs1 rows second_best PInf;
                     third_best = map (\<lambda>row. int (argmin row)) costs2;
                     potential =
                       (if n_rows < n_cols
                        then (let unused = setdiff1d (arange n_cols) lsap_cols;
                                  first_unused = map argmin (take_cols costs unused)
                              in union1d lsap_cols (map (\<lambda>k. unused ! k) first_unused))
                        else arange n_cols);
                     total_costs =
                       map2 (\<lambda>c row. map (\<lambda>x. csub lsap_total_cost c + x) row) lsap_cs costs;
                     ctx = \<lparr>ctx_costs = costs, row_idxs = rows, lsap_col_idxs = lsap_cols,
                            lsap_costs = lsap_cs, best_col_idxs = best,
                            second_best_col_idxs = second_best,
                            third_best_col_idxs = third_best, potential_cols = potential\<rparr>
                 in bind_exn
                      (fold (\<lambda>i acc. bind_exn acc (outer_round ctx i))
                            [0..<length lsap_cols] (Inr total_costs))
                      (\<lambda>total_costs'.
                         Inr (set_entries total_costs' rows lsap_cols lsap_total_cost)))))"
  by pat_completeness auto
termination
proof (relation "measure (\<lambda>costs. if n_rows_of costs > n_cols_of costs then 1 else 0)")
  show "wf (measure (\<lambda>costs. if n_rows_of costs > n_cols_of costs then 1 else (0::nat)))"
    by simp
next
  fix costs :: "cost list list" and x xa
  assume "x = n_rows_of costs" "xa = n_cols_of costs" "xa < x"
  then show "(mat_T costs, costs)
      \<in> measure (\<lambda>costs. if n_rows_of costs > n_cols_of costs then 1 else 0)"
    by (simp add: n_rows_mat_T n_cols_mat_T)
qed

declare constrained_lsap_costs.simps [simp del]

text \<open>
  What the docstring of \<^verbatim>\<open>constrained_lsap_costs\<close> gives as its meaning: every entry
  computed on its own.
\<close>

definition naive_constrained_lsap_costs :: "cost list list \<Rightarrow> exn + cost list list" where
  "naive_constrained_lsap_costs costs =
     mapM_exn (\<lambda>i. mapM_exn (\<lambda>j. constrained_lsap_cost i j costs) [0..<n_cols_of costs])
              [0..<n_rows_of costs]"

subsection \<open>Example matrices\<close>

definition tie_costs :: "cost list list" where
  "tie_costs = [[Fin 0, Fin 100, Fin 100, Fin 100],
                [Fin 5, Fin 5, Fin 50, Fin 50],
                [Fin 50, Fin 0, Fin 10, Fin 50]]"

definition tall_costs :: "cost list list" where
  "tall_costs = [[Fin 1, Fin 5],
                 [Fin 5, Fin 1],
                 [Fin 0, Fin 0]]"

section \<open>Counting systems of distinct representatives\<close>

text \<open>
  Modelled from the spec: \<^verbatim>\<open>uclasm.counting.count_alldiffs\<close> is not among the sources;
  only its tests are. The definitions follow section 4.6 of the spec. The input is a
  family of named items, each with its candidate values; a dict keeps its insertion
  order, so the family is a list of pairs. A candidate list stands for a set: a value
  written twice counts once.
\<close>

type_synonym ('k, 'v) item = "'k \<times> 'v list"

definition candidates :: "('k, 'v) item \<Rightarrow> 'v list" where
  "candidates x = remdups (snd x)"

text \<open>"Item shares a candidate value with item", and the same between an item and a group.\<close>

definition shares_value :: "('k, 'v) item \<Rightarrow> ('k, 'v) item \<Rightarrow> bool" where
  "shares_value x y = list_ex (\<lambda>v. v \<in> set (snd y)) (snd x)"

definition touches :: "('k, 'v) item \<Rightarrow> ('k, 'v) item list \<Rightarrow> bool" where
  "touches x g = list_ex (shares_value x) g"

text \<open>
  "Decompose the items into connected components": an item joins the groups it shares
  a value with, which merge into one group; an item that shares no value with any
  group is a group of its own.
\<close>

definition add_item :: "('k, 'v) item \<Rightarrow> ('k, 'v) item list list \<Rightarrow> ('k, 'v) item list list" where
  "add_item x groups =
     (x # concat (filter (touches x) groups)) # filter (\<lambda>g. \<not> touches x g) groups"

definition components :: "('k, 'v) item list \<Rightarrow> ('k, 'v) item list list" where
  "components items = foldr add_item items []"

text \<open>"The item with the fewest remaining candidates", the first of them.\<close>

fun fewest :: "('k, 'v) item \<Rightarrow> ('k, 'v) item list \<Rightarrow> ('k, 'v) item" where
  "fewest b [] = b"
| "fewest b (x # xs) =
     fewest (if length (candidates x) < length (candidates b) then x else b) xs"

lemma fewest_mem: "fewest b xs \<in> set (b # xs)"
  by (induction xs arbitrary: b) (auto split: if_splits)

text \<open>
  "Within a component, branch on the item with the fewest remaining candidates, try each
  of its candidate values in turn, remove that value from every other item's candidate
  set, recurse." An item with no candidate left has the fewest, and its branch counts
  nothing; "a component with zero items contributes a multiplicative identity of one".
\<close>

function count_component :: "('k, 'v) item list \<Rightarrow> nat" where
  "count_component [] = 1"
| "count_component (x # xs) =
     (let chosen = fewest x xs;
          others = remove1 chosen (x # xs)
      in sum_list (map (\<lambda>v. count_component (map (\<lambda>(k, cs). (k, removeAll v cs)) others))
                       (candidates chosen)))"
  by pat_completeness auto
termination
proof (relation "measure length")
  show "wf (measure length)" by simp
next
  fix x :: "('k, 'v) item" and xs chosen others v
  assume c: "chosen = fewest x xs" and o: "others = remove1 chosen (x # xs)"
  have "chosen \<in> set (x # xs)" unfolding c by (rule fewest_mem)
  then have "length (remove1 chosen (x # xs)) = length (x # xs) - 1"
    by (simp only: length_remove1 if_True)
  then have "length others = length xs" unfolding o by simp
  then show "(map (\<lambda>(k, cs). (k, removeAll v cs)) others, x # xs) \<in> measure length"
    by simp
qed

declare count_component.simps [simp del]

text \<open>"The grand total is the product of each component's count."\<close>

definition count_alldiffs :: "('k, 'v) item list \<Rightarrow> nat" where
  "count_alldiffs items = prod_list (map count_component (components items))"

text \<open>A family whose candidate sets are pairwise disjoint.\<close>

fun disjoint_family :: "('k, 'v) item list \<Rightarrow> bool" where
  "disjoint_family [] = True"
| "disjoint_family (x # xs) = (list_all (\<lambda>y. \<not> shares_value x y) xs \<and> disjoint_family xs)"

section \<open>Properties of the Graph class\<close>

subsection \<open>Degrees and self-edges\<close>











lemma stacked_nth:
  assumes "v < n" "c < length vs"
  shows "map (\<lambda>i. map (\<lambda>w. w ! i) vs) [0..<n] ! v ! c = vs ! c ! v"
  using assms by simp



subsection \<open>Pairs of neighbours\<close>
















subsection \<open>Construction\<close>




text \<open>
  Three calls with three matrices and two channel names: no node list, a node list of
  three names, a node list of two names.
\<close>

lemma three_matrices_two_channels:
  "Graph_init length (\<lambda>a. Inr (ArgFrame [])) (ArgMatrices [smp_adj0, smp_adj1, smp_adj0])
     (Some [''c1'', ''c2'']) ArgNone None = Inl TypeError"
  "Graph_init length (\<lambda>a. Inr (ArgFrame [])) (ArgMatrices [smp_adj0, smp_adj1, smp_adj0])
     (Some [''c1'', ''c2'']) (ArgFrame [''a'', ''b'', ''c'']) None =
   Inl (PyException ''Unable to match adjs to channels'')"
  "Graph_init length (\<lambda>a. Inr (ArgFrame [])) (ArgMatrices [smp_adj0, smp_adj1, smp_adj0])
     (Some [''c1'', ''c2'']) (ArgFrame [''a'', ''b'']) None = Inl KeyError"
  by (simp_all add: Graph_init_def bind_exn_def)

subsection \<open>Node cover\<close>

text \<open>
  Claim C2 fails on the code. On the template graph of the test fixture
  \<open>smp_node_cover\<close>, \<open>node_cover\<close> returns \<open>[2, 0, 2]\<close>: each entry is a position among
  the nodes still uncovered, not a node index. Nodes 4 and 1 are not in the result and
  there is an edge between them.
\<close>

theorem node_cover_fixture:
  "node_cover tmplt_node_cover = Inr [2, 0, 2] \<and>
   4 \<notin> set [2, 0, 2 :: nat] \<and> 1 \<notin> set [2, 0, 2 :: nat] \<and>
   edge_between tmplt_node_cover 4 1"
  by code_simp

subsection \<open>Subgraphs\<close>

lemma copy_all_extends:
  "\<exists>ext. fst (copy_all s refs) = s @ ext \<and> (\<forall>r\<in>set (snd (copy_all s refs)). length s \<le> r)"
proof (induction refs arbitrary: s)
  case Nil
  then show ?case by simp
next
  case (Cons a refs)
  from Cons.IH[of "s @ [s ! a]"] obtain ext where
    ext: "fst (copy_all (s @ [s ! a]) refs) = (s @ [s ! a]) @ ext"
      "\<forall>r\<in>set (snd (copy_all (s @ [s ! a]) refs)). length (s @ [s ! a]) \<le> r" by blast
  have "fst (copy_all s (a # refs)) = s @ ([s ! a] @ ext)"
    using ext(1) by (simp add: alloc_def case_prod_beta)
  moreover have "\<forall>r\<in>set (snd (copy_all s (a # refs))). length s \<le> r"
    using ext(2) by (auto simp: alloc_def case_prod_beta)
  ultimately show ?case by blast
qed

lemma zero_diagonals_frame:
  "\<forall>r\<in>set refs. n \<le> r \<Longrightarrow> take n (zero_diagonals s refs) = take n s"
  unfolding zero_diagonals_def
  by (induction refs arbitrary: s) simp_all

lemma index_all_frame: "take (length s) (fst (index_all s refs idxs)) = s"
proof (induction refs arbitrary: s)
  case Nil
  then show ?case by simp
next
  case (Cons a refs)
  show ?case
  proof (cases "index_matrix (s ! a) idxs")
    case (Inl e)
    then show ?thesis by simp
  next
    case (Inr m)
    have "take (length (s @ [m])) (fst (index_all (s @ [m]) refs idxs)) = s @ [m]"
      by (rule Cons.IH)
    then have "take (length s) (fst (index_all (s @ [m]) refs idxs)) = s"
      by (metis append_eq_conv_conj append_take_drop_id append_assoc)
    then show ?thesis
      using Inr
      by (cases "index_all (s @ [m]) refs idxs"; cases "snd (index_all (s @ [m]) refs idxs)")
         (simp_all add: alloc_def)
  qed
qed

lemma copy_all_fresh:
  "\<forall>a\<in>set refs. a < length s \<Longrightarrow>
   copy_all s refs = (s @ map (\<lambda>a. s ! a) refs, [length s..<length s + length refs])"
proof (induction refs arbitrary: s)
  case Nil
  then show ?case by simp
next
  case (Cons a refs)
  have valid: "\<forall>b\<in>set refs. b < length (s @ [s ! a])" using Cons.prems by auto
  have same: "map (\<lambda>b. (s @ [s ! a]) ! b) refs = map (\<lambda>b. s ! b) refs"
    using Cons.prems by (simp add: nth_append)
  have upt: "[length s..<Suc (length s + length refs)]
      = length s # [Suc (length s)..<Suc (length s + length refs)]"
    by (simp add: upt_rec)
  show ?case
    using Cons.IH[OF valid] same upt by (simp add: alloc_def)
qed

lemma zero_diagonals_fresh:
  "zero_diagonals (s @ ms @ t) [length s..<length s + length ms] = s @ map zero_diagonal ms @ t"
proof (induction ms arbitrary: s)
  case Nil
  then show ?case by (simp add: zero_diagonals_def)
next
  case (Cons m ms)
  have upt: "[length s..<length s + length (m # ms)]
      = length s # [length (s @ [zero_diagonal m])..<length (s @ [zero_diagonal m]) + length ms]"
    by (simp add: upt_rec)
  have step: "(s @ (m # ms) @ t)[length s := zero_diagonal ((s @ (m # ms) @ t) ! length s)]
      = (s @ [zero_diagonal m]) @ ms @ t"
    by (simp add: list_update_append)
  have "zero_diagonals (s @ (m # ms) @ t) [length s..<length s + length (m # ms)]
      = zero_diagonals ((s @ [zero_diagonal m]) @ ms @ t)
          [length (s @ [zero_diagonal m])..<length (s @ [zero_diagonal m]) + length ms]"
    unfolding upt by (simp only: zero_diagonals_def fold.simps comp_def step)
  then show ?case using Cons.IH[of "s @ [zero_diagonal m]"] by simp
qed

lemma length_zero_diagonal: "length (zero_diagonal m) = length m"
proof -
  have "length (fold (\<lambda>k m'. m'[k := (m' ! k)[k := 0]]) ks m) = length m" for ks
    by (induction ks arbitrary: m) simp_all
  then show ?thesis by (simp add: zero_diagonal_def)
qed

lemma norm_index_in_range:
  "- int n \<le> i \<Longrightarrow> i < int n \<Longrightarrow>
   bind_exn (norm_index (length xs) i) (\<lambda>k. Inr (xs ! k)) = Inr (py_nth xs i)" if "length xs = n"
  using that by (auto simp: norm_index_def bind_exn_def py_nth_def)

lemma mapM_exn_Inr:
  "\<forall>x\<in>set xs. f x = Inr (g x) \<Longrightarrow> mapM_exn f xs = Inr (map g xs)"
  by (induction xs) (simp_all add: bind_exn_def)

lemma take_idxs_in_range:
  "in_range (length xs) idxs \<Longrightarrow> take_idxs xs idxs = Inr (map (py_nth xs) idxs)"
  unfolding take_idxs_def
  by (rule mapM_exn_Inr) (simp add: in_range_def list_all_iff norm_index_in_range)

lemma py_nth_mem: "- int (length xs) \<le> i \<Longrightarrow> i < int (length xs) \<Longrightarrow> py_nth xs i \<in> set xs"
  by (auto simp: py_nth_def intro!: nth_mem)

lemma index_matrix_in_range:
  assumes sq: "square n m" and rg: "in_range n idxs"
  shows "index_matrix m idxs = Inr (map (\<lambda>row. map (py_nth row) idxs) (map (py_nth m) idxs))"
proof -
  have lm: "length m = n" using sq by (simp add: square_def)
  have rows: "take_idxs m idxs = Inr (map (py_nth m) idxs)"
    using rg by (simp add: take_idxs_in_range lm)
  have "\<forall>row\<in>set (map (py_nth m) idxs). take_idxs row idxs = Inr (map (py_nth row) idxs)"
  proof
    fix row assume "row \<in> set (map (py_nth m) idxs)"
    then obtain i where "i \<in> set idxs" "row = py_nth m i" by auto
    then have "row \<in> set m"
      using rg lm by (auto simp: in_range_def list_all_iff intro!: py_nth_mem)
    then have "length row = n" using sq by (simp add: square_def list_all_iff)
    then show "take_idxs row idxs = Inr (map (py_nth row) idxs)"
      using rg by (simp add: take_idxs_in_range)
  qed
  then have "mapM_exn (\<lambda>row. take_idxs row idxs) (map (py_nth m) idxs)
      = Inr (map (\<lambda>row. map (py_nth row) idxs) (map (py_nth m) idxs))"
    by (rule mapM_exn_Inr)
  then show ?thesis using rows by (simp add: index_matrix_def bind_exn_def)
qed

lemma index_all_fresh:
  assumes "\<forall>a\<in>set refs. a < length s"
    and "\<forall>a\<in>set refs. index_matrix (s ! a) idxs = Inr (f (s ! a))"
  shows "index_all s refs idxs
         = (s @ map (\<lambda>a. f (s ! a)) refs, Inr [length s..<length s + length refs])"
  using assms
proof (induction refs arbitrary: s)
  case Nil
  then show ?case by simp
next
  case (Cons a refs)
  let ?s1 = "s @ [f (s ! a)]"
  have valid: "\<forall>b\<in>set refs. b < length ?s1" using Cons.prems(1) by auto
  have same: "?s1 ! b = s ! b" if "b \<in> set refs" for b
    using Cons.prems(1) that by (simp add: nth_append)
  have ok: "\<forall>b\<in>set refs. index_matrix (?s1 ! b) idxs = Inr (f (?s1 ! b))"
    using Cons.prems(2) same by simp
  have maps: "map (\<lambda>b. f (?s1 ! b)) refs = map (\<lambda>b. f (s ! b)) refs"
    using same by simp
  have upt: "[length s..<Suc (length s + length refs)]
      = length s # [Suc (length s)..<Suc (length s + length refs)]"
    by (simp add: upt_rec)
  have head: "index_matrix (s ! a) idxs = Inr (f (s ! a))" using Cons.prems(2) by simp
  show ?case
    using Cons.IH[OF valid ok] maps upt head by (simp add: alloc_def)
qed

lemma Graph_init_matrices:
  assumes "ms \<noteq> []" and "length ms = length chs"
  shows "Graph_init shape0 DataFrame (ArgMatrices ms) (Some chs) (ArgFrame nl) el
         = Inr \<lparr>n_nodes = shape0 (hd ms), n_channels = length ms, channels = chs,
                adjs = ms, nodelist = nl, edgelist = el\<rparr>"
  using assms by (cases ms) (simp_all add: Graph_init_def bind_exn_def)

lemma list_index_first: "x \<in> set xs \<Longrightarrow> list_index xs x = Inr (first_pos xs x)"
  by (induction xs) (auto simp: first_pos_def bind_exn_def)

lemma first_pos_less: "x \<in> set xs \<Longrightarrow> first_pos xs x < length xs"
  by (induction xs) (auto simp: first_pos_def)


lemma Graph_new_frame:
  "matrices (fst (Graph_new DataFrame s gs a c n e)) = s \<and>
   take (length gs) (graphs (fst (Graph_new DataFrame s gs a c n e))) = gs"
  by (simp add: Graph_new_def split: sum.splits)

lemma unchangedI:
  assumes "self < length (graphs h)" and "refs_valid (matrices h) (graphs h ! self)"
    and ms: "take (length (matrices h)) (matrices h') = matrices h"
    and gs: "take (length (graphs h)) (graphs h') = graphs h"
  shows "unchanged h self h'"
proof -
  have g: "graphs h' ! self = graphs h ! self"
    using assms(1) gs by (metis nth_take)
  have "matrices h' ! r = matrices h ! r" if "r < length (matrices h)" for r
    using that ms by (metis nth_take)
  then have "map (\<lambda>r. matrices h' ! r) (adjs (graphs h ! self))
      = map (\<lambda>r. matrices h ! r) (adjs (graphs h ! self))"
    using assms(2) by (simp add: refs_valid_def list_all_iff)
  then show ?thesis using ms gs g by (simp add: unchanged_def graph_view_def)
qed

lemma loopless_subgraph_frame:
  "take (length (matrices h)) (matrices (fst (loopless_subgraph DataFrame h self))) = matrices h \<and>
   take (length (graphs h)) (graphs (fst (loopless_subgraph DataFrame h self))) = graphs h"
proof -
  let ?s = "matrices h" and ?g = "graphs h ! self"
  obtain ext where ext: "fst (copy_all ?s (adjs ?g)) = ?s @ ext"
    "\<forall>r\<in>set (snd (copy_all ?s (adjs ?g))). length ?s \<le> r"
    using copy_all_extends by blast
  have "take (length ?s) (zero_diagonals (fst (copy_all ?s (adjs ?g))) (snd (copy_all ?s (adjs ?g))))
      = ?s"
    using zero_diagonals_frame[OF ext(2)] ext(1) by simp
  then show ?thesis
    using Graph_new_frame
    by (simp add: loopless_subgraph_def Let_def case_prod_beta)
qed

lemma node_subgraph_frame:
  "take (length (matrices h)) (matrices (fst (node_subgraph DataFrame h self idxs))) = matrices h \<and>
   take (length (graphs h)) (graphs (fst (node_subgraph DataFrame h self idxs))) = graphs h"
proof -
  let ?s = "matrices h" and ?g = "graphs h ! self"
  obtain s1 r where r: "index_all ?s (adjs ?g) idxs = (s1, r)" by (cases "index_all ?s (adjs ?g) idxs")
  have s1: "take (length ?s) s1 = ?s" using index_all_frame[of ?s "adjs ?g" idxs] r by simp
  show ?thesis
    using r s1 Graph_new_frame
    by (simp add: node_subgraph_def Let_def split: sum.splits)
qed

lemma channel_subgraph_frame:
  "matrices (fst (channel_subgraph DataFrame h self chs)) = matrices h \<and>
   take (length (graphs h)) (graphs (fst (channel_subgraph DataFrame h self chs))) = graphs h"
  using Graph_new_frame
  by (simp add: channel_subgraph_def Let_def split: sum.splits)

lemma map_nth_fresh: "map (\<lambda>r. (s @ ms) ! r) [length s..<length s + length ms] = ms"
  by (rule nth_equalityI) (simp_all add: nth_append)

lemma Graph_new_matrices:
  assumes "ms \<noteq> []" and "length ms = length chs"
  shows "Graph_new DataFrame s gs (ArgMatrices ms) (Some chs) (ArgFrame nl) el
         = (\<lparr>matrices = s,
              graphs = gs @ [\<lparr>n_nodes = length (s ! hd ms), n_channels = length ms, channels = chs,
                              adjs = ms, nodelist = nl, edgelist = el\<rparr>]\<rparr>,
            Inr (length gs))"
  using Graph_init_matrices[OF assms] by (simp add: Graph_new_def)

lemma data_model_facts:
  assumes "data_model h self"
  shows "adjs (graphs h ! self) \<noteq> []"
    and "length (adjs (graphs h ! self)) = n_channels (graphs h ! self)"
    and "length (channels (graphs h ! self)) = n_channels (graphs h ! self)"
    and "length (nodelist (graphs h ! self)) = n_nodes (graphs h ! self)"
    and "\<forall>a\<in>set (adjs (graphs h ! self)). square (n_nodes (graphs h ! self)) (matrices h ! a)"
  using assms by (auto simp: data_model_def wf_graph_def graph_view_def list_all_iff)

lemma loopless_subgraph_returns:
  assumes valid: "refs_valid (matrices h) (graphs h ! self)" and dm: "data_model h self"
  shows "returns_new h (loopless_subgraph DataFrame h self)
           ((graph_view (matrices h) (graphs h ! self))
              \<lparr>adjs := map zero_diagonal (adjs (graph_view (matrices h) (graphs h ! self))),
               edgelist := map_option (filter (\<lambda>(src, tgt, ch). src \<noteq> tgt))
                             (edgelist (graphs h ! self))\<rparr>)"
    and "list_all (\<lambda>a. length (matrices h) \<le> a)
           (adjs (graphs (fst (loopless_subgraph DataFrame h self)) ! length (graphs h)))"
proof -
  let ?s = "matrices h" and ?g = "graphs h ! self"
  let ?ms = "map (\<lambda>a. ?s ! a) (adjs ?g)"
  let ?new = "[length ?s..<length ?s + length (adjs ?g)]"
  let ?el = "case edgelist ?g of
               Some rows \<Rightarrow> Some (filter (\<lambda>(src, tgt, ch). src \<noteq> tgt) rows)
             | None \<Rightarrow> None"
  note facts = data_model_facts[OF dm]
  have v: "\<forall>a\<in>set (adjs ?g). a < length ?s"
    using valid by (simp add: refs_valid_def list_all_iff)
  have copy: "copy_all ?s (adjs ?g) = (?s @ ?ms, ?new)"
    by (rule copy_all_fresh[OF v])
  have zd: "zero_diagonals (?s @ ?ms) ?new = ?s @ map zero_diagonal ?ms"
    using zero_diagonals_fresh[of ?s ?ms "[]"] by simp
  have ne: "?new \<noteq> []" using facts(1) by simp
  have len: "length ?new = length (channels ?g)" using facts(2,3) by simp
  have hd: "hd ?new = length ?s" using facts(1) by (simp add: upt_rec)
  have first: "(?s @ map zero_diagonal ?ms) ! length ?s = zero_diagonal (?s ! hd (adjs ?g))"
    using facts(1) by (cases "adjs ?g") (simp_all add: nth_append)
  have "hd (adjs ?g) \<in> set (adjs ?g)" using facts(1) by simp
  then have "length (?s ! hd (adjs ?g)) = n_nodes ?g"
    using facts(5) by (simp add: square_def)
  then have nn: "length ((?s @ map zero_diagonal ?ms) ! length ?s) = n_nodes ?g"
    by (simp only: first length_zero_diagonal)
  have res: "loopless_subgraph DataFrame h self
      = (\<lparr>matrices = ?s @ map zero_diagonal ?ms,
           graphs = graphs h @ [\<lparr>n_nodes = n_nodes ?g, n_channels = length ?new,
                                  channels = channels ?g, adjs = ?new, nodelist = nodelist ?g,
                                  edgelist = ?el\<rparr>]\<rparr>,
         Inr (length (graphs h)))"
    using Graph_new_matrices[OF ne len, of DataFrame "?s @ map zero_diagonal ?ms" "graphs h"
        "nodelist ?g" ?el] nn
    by (simp add: loopless_subgraph_def Let_def copy zd hd)
  have el: "?el = map_option (filter (\<lambda>(src, tgt, ch). src \<noteq> tgt)) (edgelist ?g)"
    by (cases "edgelist ?g") simp_all
  have view: "map (\<lambda>r. (?s @ map zero_diagonal ?ms) ! r) ?new = map zero_diagonal ?ms"
    using map_nth_fresh[of ?s "map zero_diagonal ?ms"] by simp
  show "returns_new h (loopless_subgraph DataFrame h self)
           ((graph_view (matrices h) (graphs h ! self))
              \<lparr>adjs := map zero_diagonal (adjs (graph_view (matrices h) (graphs h ! self))),
               edgelist := map_option (filter (\<lambda>(src, tgt, ch). src \<noteq> tgt))
                             (edgelist (graphs h ! self))\<rparr>)"
    unfolding res returns_new_def
    using view facts(2) el by (simp add: graph_view_def)
  show "list_all (\<lambda>a. length (matrices h) \<le> a)
           (adjs (graphs (fst (loopless_subgraph DataFrame h self)) ! length (graphs h)))"
    unfolding res by (simp add: list_all_iff)
qed

lemma node_subgraph_returns:
  assumes valid: "refs_valid (matrices h) (graphs h ! self)" and dm: "data_model h self"
    and rg: "in_range (n_nodes (graphs h ! self)) idxs"
  shows "returns_new h (node_subgraph DataFrame h self idxs)
           ((graph_view (matrices h) (graphs h ! self))
              \<lparr>n_nodes := length idxs,
               adjs := map (\<lambda>m. map (\<lambda>row. map (py_nth row) idxs) (map (py_nth m) idxs))
                         (adjs (graph_view (matrices h) (graphs h ! self))),
               nodelist := map (py_nth (nodelist (graphs h ! self))) idxs,
               edgelist := map_option
                 (filter (\<lambda>(src, tgt, ch).
                    src \<in> set (map (py_nth (nodelist (graphs h ! self))) idxs) \<and>
                    tgt \<in> set (map (py_nth (nodelist (graphs h ! self))) idxs)))
                 (edgelist (graphs h ! self))\<rparr>)"
    and "list_all (\<lambda>a. length (matrices h) \<le> a)
           (adjs (graphs (fst (node_subgraph DataFrame h self idxs)) ! length (graphs h)))"
proof -
  let ?s = "matrices h" and ?g = "graphs h ! self"
  let ?f = "\<lambda>m. map (\<lambda>row. map (py_nth row) idxs) (map (py_nth m) idxs)"
  let ?ms = "map (\<lambda>a. ?f (?s ! a)) (adjs ?g)"
  let ?new = "[length ?s..<length ?s + length (adjs ?g)]"
  let ?nodes = "map (py_nth (nodelist ?g)) idxs"
  let ?el = "case edgelist ?g of
               Some rows \<Rightarrow>
                 Some (filter (\<lambda>(src, tgt, ch). src \<in> set ?nodes \<and> tgt \<in> set ?nodes) rows)
             | None \<Rightarrow> None"
  note facts = data_model_facts[OF dm]
  have v: "\<forall>a\<in>set (adjs ?g). a < length ?s"
    using valid by (simp add: refs_valid_def list_all_iff)
  have im: "\<forall>a\<in>set (adjs ?g). index_matrix (?s ! a) idxs = Inr (?f (?s ! a))"
  proof
    fix a assume "a \<in> set (adjs ?g)"
    then have "square (n_nodes ?g) (?s ! a)" using facts(5) by blast
    then show "index_matrix (?s ! a) idxs = Inr (?f (?s ! a))"
      using rg by (rule index_matrix_in_range)
  qed
  have ia: "index_all ?s (adjs ?g) idxs = (?s @ ?ms, Inr ?new)"
    by (rule index_all_fresh[OF v im])
  have nodes: "take_idxs (nodelist ?g) idxs = Inr ?nodes"
    using rg facts(4) by (simp add: take_idxs_in_range)
  have ne: "?new \<noteq> []" using facts(1) by simp
  have len: "length ?new = length (channels ?g)" using facts(2,3) by simp
  have hd: "hd ?new = length ?s" using facts(1) by (simp add: upt_rec)
  have first: "length ((?s @ ?ms) ! length ?s) = length idxs"
    using facts(1) by (cases "adjs ?g") (simp_all add: nth_append)
  have res: "node_subgraph DataFrame h self idxs
      = (\<lparr>matrices = ?s @ ?ms,
           graphs = graphs h @ [\<lparr>n_nodes = length idxs, n_channels = length ?new,
                                  channels = channels ?g, adjs = ?new, nodelist = ?nodes,
                                  edgelist = ?el\<rparr>]\<rparr>,
         Inr (length (graphs h)))"
    using Graph_new_matrices[OF ne len, of DataFrame "?s @ ?ms" "graphs h" ?nodes ?el] first
    by (simp add: node_subgraph_def Let_def ia nodes hd)
  have el: "?el = map_option
      (filter (\<lambda>(src, tgt, ch). src \<in> set ?nodes \<and> tgt \<in> set ?nodes)) (edgelist ?g)"
    by (cases "edgelist ?g") simp_all
  have view: "map (\<lambda>r. (?s @ ?ms) ! r) ?new = ?ms"
    using map_nth_fresh[of ?s ?ms] by simp
  show "returns_new h (node_subgraph DataFrame h self idxs)
           ((graph_view (matrices h) (graphs h ! self))
              \<lparr>n_nodes := length idxs,
               adjs := map (\<lambda>m. map (\<lambda>row. map (py_nth row) idxs) (map (py_nth m) idxs))
                         (adjs (graph_view (matrices h) (graphs h ! self))),
               nodelist := map (py_nth (nodelist (graphs h ! self))) idxs,
               edgelist := map_option
                 (filter (\<lambda>(src, tgt, ch).
                    src \<in> set (map (py_nth (nodelist (graphs h ! self))) idxs) \<and>
                    tgt \<in> set (map (py_nth (nodelist (graphs h ! self))) idxs)))
                 (edgelist (graphs h ! self))\<rparr>)"
    unfolding res returns_new_def
    using view facts(2) el by (simp add: graph_view_def comp_def)
  show "list_all (\<lambda>a. length (matrices h) \<le> a)
           (adjs (graphs (fst (node_subgraph DataFrame h self idxs)) ! length (graphs h)))"
    unfolding res by (simp add: list_all_iff)
qed

lemma channel_subgraph_returns:
  assumes valid: "refs_valid (matrices h) (graphs h ! self)" and dm: "data_model h self"
    and ne: "chs \<noteq> []" and sub: "set chs \<subseteq> set (channels (graphs h ! self))"
  shows "returns_new h (channel_subgraph DataFrame h self chs)
           ((graph_view (matrices h) (graphs h ! self))
              \<lparr>n_channels := length chs, channels := chs,
               adjs := map (\<lambda>ch. adjs (graph_view (matrices h) (graphs h ! self))
                                   ! first_pos (channels (graphs h ! self)) ch) chs,
               edgelist := map_option (filter (\<lambda>(src, tgt, ch). ch \<in> set chs))
                             (edgelist (graphs h ! self))\<rparr>)"
    and "matrices (fst (channel_subgraph DataFrame h self chs)) = matrices h"
proof -
  let ?s = "matrices h" and ?g = "graphs h ! self"
  let ?pos = "first_pos (channels ?g)"
  let ?new = "map (\<lambda>ch. adjs ?g ! ?pos ch) chs"
  let ?el = "case edgelist ?g of
               Some rows \<Rightarrow> Some (filter (\<lambda>(src, tgt, ch). ch \<in> set chs) rows)
             | None \<Rightarrow> None"
  note facts = data_model_facts[OF dm]
  have pos: "?pos ch < length (adjs ?g)" if "ch \<in> set chs" for ch
    using first_pos_less[of ch "channels ?g"] that sub facts(2,3) by auto
  have "\<forall>ch\<in>set chs. bind_exn (list_index (channels ?g) ch)
            (\<lambda>k. if k < length (adjs ?g) then Inr (adjs ?g ! k) else Inl IndexError)
          = Inr (adjs ?g ! ?pos ch)"
    using sub pos by (auto simp: list_index_first bind_exn_def)
  then have sel: "mapM_exn (\<lambda>ch. bind_exn (list_index (channels ?g) ch)
            (\<lambda>k. if k < length (adjs ?g) then Inr (adjs ?g ! k) else Inl IndexError)) chs
          = Inr ?new"
    by (rule mapM_exn_Inr)
  have ne': "?new \<noteq> []" using ne by simp
  have len: "length ?new = length chs" by simp
  have "adjs ?g ! ?pos (hd chs) \<in> set (adjs ?g)"
    using pos[of "hd chs"] ne by simp
  moreover have "hd ?new = adjs ?g ! ?pos (hd chs)" using ne by (simp add: hd_map)
  ultimately have nn: "length (?s ! hd ?new) = n_nodes ?g"
    using facts(5) by (simp add: square_def)
  have res: "channel_subgraph DataFrame h self chs
      = (\<lparr>matrices = ?s,
           graphs = graphs h @ [\<lparr>n_nodes = n_nodes ?g, n_channels = length ?new,
                                  channels = chs, adjs = ?new, nodelist = nodelist ?g,
                                  edgelist = ?el\<rparr>]\<rparr>,
         Inr (length (graphs h)))"
    using Graph_new_matrices[OF ne' len, of DataFrame ?s "graphs h" "nodelist ?g" ?el] nn
    by (simp add: channel_subgraph_def Let_def sel)
  have el: "?el = map_option (filter (\<lambda>(src, tgt, ch). ch \<in> set chs)) (edgelist ?g)"
    by (cases "edgelist ?g") simp_all
  have view: "map (\<lambda>r. ?s ! r) ?new = map (\<lambda>ch. map (\<lambda>r. ?s ! r) (adjs ?g) ! ?pos ch) chs"
    using pos by simp
  show "returns_new h (channel_subgraph DataFrame h self chs)
           ((graph_view (matrices h) (graphs h ! self))
              \<lparr>n_channels := length chs, channels := chs,
               adjs := map (\<lambda>ch. adjs (graph_view (matrices h) (graphs h ! self))
                                   ! first_pos (channels (graphs h ! self)) ch) chs,
               edgelist := map_option (filter (\<lambda>(src, tgt, ch). ch \<in> set chs))
                             (edgelist (graphs h ! self))\<rparr>)"
    unfolding res returns_new_def
    using view el by (simp add: graph_view_def)
  show "matrices (fst (channel_subgraph DataFrame h self chs)) = matrices h"
    unfolding res by simp
qed


text \<open>
  Claim C9. Each of \<open>loopless_subgraph\<close>, \<open>node_subgraph\<close> and \<open>channel_subgraph\<close>
  leaves every matrix and every Graph object of the heap as it was, whether it returns
  or raises; so the original graph has the adjacency matrices, channel list and node
  list it had before the call. On a graph that meets the invariant of the data model
  each of them returns, and what it returns is a new Graph object: the graph without
  its self-edges, on matrices that are new; the graph induced by node indices that are
  in range, on matrices that are new; the graph of the channels asked for, at least one
  and all of them channels of the graph, on the matrices of the original.
\<close>

theorem subgraphs_leave_original_unchanged:
  assumes self: "self < length (graphs h)"
    and valid: "refs_valid (matrices h) (graphs h ! self)"
  shows "unchanged h self (fst (loopless_subgraph DataFrame h self)) \<and>
         unchanged h self (fst (node_subgraph DataFrame h self node_idxs)) \<and>
         unchanged h self (fst (channel_subgraph DataFrame h self chs)) \<and>
         (data_model h self \<longrightarrow>
            returns_new h (loopless_subgraph DataFrame h self)
              ((graph_view (matrices h) (graphs h ! self))
                 \<lparr>adjs := map zero_diagonal (adjs (graph_view (matrices h) (graphs h ! self))),
                  edgelist := map_option (filter (\<lambda>(src, tgt, ch). src \<noteq> tgt))
                                (edgelist (graphs h ! self))\<rparr>) \<and>
            list_all (\<lambda>a. length (matrices h) \<le> a)
              (adjs (graphs (fst (loopless_subgraph DataFrame h self)) ! length (graphs h)))) \<and>
         (data_model h self \<and> in_range (n_nodes (graphs h ! self)) node_idxs \<longrightarrow>
            returns_new h (node_subgraph DataFrame h self node_idxs)
              ((graph_view (matrices h) (graphs h ! self))
                 \<lparr>n_nodes := length node_idxs,
                  adjs := map (\<lambda>m. map (\<lambda>row. map (py_nth row) node_idxs)
                                      (map (py_nth m) node_idxs))
                            (adjs (graph_view (matrices h) (graphs h ! self))),
                  nodelist := map (py_nth (nodelist (graphs h ! self))) node_idxs,
                  edgelist := map_option
                    (filter (\<lambda>(src, tgt, ch).
                       src \<in> set (map (py_nth (nodelist (graphs h ! self))) node_idxs) \<and>
                       tgt \<in> set (map (py_nth (nodelist (graphs h ! self))) node_idxs)))
                    (edgelist (graphs h ! self))\<rparr>) \<and>
            list_all (\<lambda>a. length (matrices h) \<le> a)
              (adjs (graphs (fst (node_subgraph DataFrame h self node_idxs))
                       ! length (graphs h)))) \<and>
         (data_model h self \<and> chs \<noteq> [] \<and> set chs \<subseteq> set (channels (graphs h ! self)) \<longrightarrow>
            returns_new h (channel_subgraph DataFrame h self chs)
              ((graph_view (matrices h) (graphs h ! self))
                 \<lparr>n_channels := length chs, channels := chs,
                  adjs := map (\<lambda>ch. adjs (graph_view (matrices h) (graphs h ! self))
                                      ! first_pos (channels (graphs h ! self)) ch) chs,
                  edgelist := map_option (filter (\<lambda>(src, tgt, ch). ch \<in> set chs))
                                (edgelist (graphs h ! self))\<rparr>) \<and>
            matrices (fst (channel_subgraph DataFrame h self chs)) = matrices h)"
proof -
  have "unchanged h self (fst (loopless_subgraph DataFrame h self))"
    using loopless_subgraph_frame[of h DataFrame self] by (intro unchangedI[OF self valid]) simp_all
  moreover have "unchanged h self (fst (node_subgraph DataFrame h self node_idxs))"
    using node_subgraph_frame[of h DataFrame self node_idxs]
    by (intro unchangedI[OF self valid]) simp_all
  moreover have "unchanged h self (fst (channel_subgraph DataFrame h self chs))"
    using channel_subgraph_frame[of DataFrame h self chs]
    by (intro unchangedI[OF self valid]) simp_all
  ultimately show ?thesis
    using loopless_subgraph_returns[OF valid, of DataFrame]
      node_subgraph_returns[OF valid, of node_idxs DataFrame]
      channel_subgraph_returns[OF valid, of chs DataFrame]
    by blast
qed

theorem subgraphs_leave_original_unchanged_witness:
  "0 < length (graphs loop_heap) \<and> refs_valid (matrices loop_heap) (graphs loop_heap ! 0) \<and>
   data_model loop_heap 0 \<and> in_range (n_nodes (graphs loop_heap ! 0)) [1] \<and>
   [''c1''] \<noteq> [] \<and> set [''c1''] \<subseteq> set (channels (graphs loop_heap ! 0)) \<and>
   unchanged loop_heap 0 (fst (loopless_subgraph DataFrame_of_names loop_heap 0)) \<and>
   unchanged loop_heap 0 (fst (node_subgraph DataFrame_of_names loop_heap 0 [1])) \<and>
   unchanged loop_heap 0 (fst (channel_subgraph DataFrame_of_names loop_heap 0 [''c1''])) \<and>
   returns_new loop_heap (loopless_subgraph DataFrame_of_names loop_heap 0)
     \<lparr>n_nodes = 2, n_channels = 1, channels = [''c1''], adjs = [[[0, 1], [0, 0]]],
      nodelist = [''a'', ''b''], edgelist = Some [(''a'', ''b'', ''c1'')]\<rparr> \<and>
   returns_new loop_heap (node_subgraph DataFrame_of_names loop_heap 0 [1])
     \<lparr>n_nodes = 1, n_channels = 1, channels = [''c1''], adjs = [[[2]]],
      nodelist = [''b''], edgelist = Some []\<rparr> \<and>
   returns_new loop_heap (channel_subgraph DataFrame_of_names loop_heap 0 [''c1''])
     \<lparr>n_nodes = 2, n_channels = 1, channels = [''c1''], adjs = [[[1, 1], [0, 2]]],
      nodelist = [''a'', ''b''],
      edgelist = Some [(''a'', ''a'', ''c1''), (''a'', ''b'', ''c1'')]\<rparr> \<and>
   loopless_subgraph DataFrame_of_names loop_heap 0 =
     (\<lparr>matrices = [[[1, 1], [0, 2]], [[0, 1], [0, 0]]],
        graphs = [loop_graph,
                  \<lparr>n_nodes = 2, n_channels = 1, channels = [''c1''], adjs = [1],
                   nodelist = [''a'', ''b''], edgelist = Some [(''a'', ''b'', ''c1'')]\<rparr>]\<rparr>,
      Inr 1)"
proof -
  have self: "0 < length (graphs loop_heap)" by (simp add: loop_heap_def)
  have valid: "refs_valid (matrices loop_heap) (graphs loop_heap ! 0)"
    by (simp add: refs_valid_def loop_heap_def loop_store_def loop_graph_def)
  have dm: "data_model loop_heap 0"
    by (simp add: data_model_def wf_graph_def graph_view_def square_def
        loop_heap_def loop_store_def loop_graph_def)
  have rg: "in_range (n_nodes (graphs loop_heap ! 0)) [1]"
    by (simp add: in_range_def loop_heap_def loop_graph_def)
  have chs: "set [''c1''] \<subseteq> set (channels (graphs loop_heap ! 0))"
    by (simp add: loop_heap_def loop_graph_def)
  have zd: "zero_diagonal [[1, 1], [0, 2]] = [[0, 1], [0, 0]]"
    by (simp add: zero_diagonal_def diagonal_def n_rows_of_def n_cols_of_def)
  have g: "graphs loop_heap ! 0 = loop_graph" by (simp add: loop_heap_def)
  have view: "graph_view (matrices loop_heap) loop_graph
      = \<lparr>n_nodes = 2, n_channels = 1, channels = [''c1''], adjs = [[[1, 1], [0, 2]]],
         nodelist = [''a'', ''b''],
         edgelist = Some [(''a'', ''a'', ''c1''), (''a'', ''b'', ''c1'')]\<rparr>"
    by (simp add: graph_view_def loop_heap_def loop_store_def loop_graph_def)
  have fields: "channels loop_graph = [''c1'']" "nodelist loop_graph = [''a'', ''b'']"
    "edgelist loop_graph = Some [(''a'', ''a'', ''c1''), (''a'', ''b'', ''c1'')]"
    by (simp_all add: loop_graph_def)
  have run: "loopless_subgraph DataFrame_of_names loop_heap 0 =
     (\<lparr>matrices = [[[1, 1], [0, 2]], [[0, 1], [0, 0]]],
        graphs = [loop_graph,
                  \<lparr>n_nodes = 2, n_channels = 1, channels = [''c1''], adjs = [1],
                   nodelist = [''a'', ''b''], edgelist = Some [(''a'', ''b'', ''c1'')]\<rparr>]\<rparr>,
      Inr 1)"
    by (simp add: loopless_subgraph_def Graph_new_def Graph_init_def bind_exn_def Let_def
        alloc_def zero_diagonals_def zd loop_heap_def loop_store_def loop_graph_def)
  from subgraphs_leave_original_unchanged[OF self valid, of DataFrame_of_names "[1]" "[''c1'']"]
    self valid dm rg chs run
  show ?thesis
    by (simp add: g view fields zd py_nth_def first_pos_def)
qed

section \<open>Properties of the constrained assignment solver\<close>

subsection \<open>Failures of the solver\<close>

lemma lap_infeasible_nonempty:
  assumes "lap m = Inl e"
  shows "m \<noteq> []"
proof
  assume "m = []"
  then have "lap m = Inr ([], [])"
    by (simp add: lap_def n_rows_of_def n_cols_of_def best_assignment_def assignment_cost_def
        zero_cost_def)
  with assms show False by simp
qed

lemma mat_T_replicate:
  "0 < c \<Longrightarrow> mat_T (replicate c (replicate r x)) = replicate r (replicate c x)"
  by (cases c) (auto simp: mat_T_def n_cols_of_def intro!: nth_equalityI)

lemma constrained_lsap_costs_wide:
  assumes "\<not> n_rows_of costs > n_cols_of costs" "lap costs = Inl e"
  shows "constrained_lsap_costs costs =
     (if e = infeasible then Inr (replicate (n_rows_of costs) (replicate (n_cols_of costs) PInf))
      else Inl e)"
  using assms by (subst constrained_lsap_costs.simps) (simp add: Let_def)

lemma constrained_lsap_costs_base_failure:
  assumes "lap (if n_rows_of costs > n_cols_of costs then mat_T costs else costs) = Inl e"
  shows "constrained_lsap_costs costs =
     (if e = infeasible then Inr (replicate (n_rows_of costs) (replicate (n_cols_of costs) PInf))
      else Inl e)"
proof (cases "n_rows_of costs > n_cols_of costs")
  case False
  with assms show ?thesis by (simp add: constrained_lsap_costs_wide)
next
  case True
  with assms have l: "lap (mat_T costs) = Inl e" by simp
  then have "mat_T costs \<noteq> []" by (rule lap_infeasible_nonempty)
  then have pos: "0 < n_cols_of costs" by (auto simp: mat_T_def)
  have nt: "\<not> n_rows_of (mat_T costs) > n_cols_of (mat_T costs)"
    using True pos by (simp add: n_rows_mat_T n_cols_mat_T)
  have "constrained_lsap_costs costs
      = bind_exn (constrained_lsap_costs (mat_T costs)) (\<lambda>t. Inr (mat_T t))"
    using True by (subst constrained_lsap_costs.simps) (simp add: Let_def)
  also have "constrained_lsap_costs (mat_T costs) =
     (if e = infeasible
      then Inr (replicate (n_rows_of (mat_T costs)) (replicate (n_cols_of (mat_T costs)) PInf))
      else Inl e)"
    using nt l by (rule constrained_lsap_costs_wide)
  finally show ?thesis
    using pos by (simp add: bind_exn_def n_rows_mat_T n_cols_mat_T mat_T_replicate)
qed

text \<open>
  Claim C5. The unconstrained problem is the one of the matrix itself, or of its
  transpose when it has more rows than columns. When the solver finds it infeasible,
  \<open>constrained_lsap_costs\<close> returns the matrix of the same shape with \<open>+inf\<close> everywhere
  and raises nothing; any other exception \<open>e\<close> of the solver is raised by
  \<open>constrained_lsap_costs\<close>, and by \<open>constrained_lsap_cost\<close> when its call of the solver
  raises it.
\<close>

theorem solver_failures:
  "(lap (if n_rows_of costs > n_cols_of costs then mat_T costs else costs) = Inl infeasible \<longrightarrow>
      constrained_lsap_costs costs
        = Inr (replicate (n_rows_of costs) (replicate (n_cols_of costs) PInf))) \<and>
   (lap (if n_rows_of costs > n_cols_of costs then mat_T costs else costs) = Inl e \<and>
      e \<noteq> infeasible \<longrightarrow> constrained_lsap_costs costs = Inl e) \<and>
   (lap (remove_row_col i j costs) = Inl e \<and> e \<noteq> infeasible \<longrightarrow>
      constrained_lsap_cost i j costs = Inl e)"
  by (auto simp: constrained_lsap_costs_base_failure constrained_lsap_cost_def)

theorem solver_failures_witness:
  "lap [[PInf, PInf], [Fin 1, Fin 2]] = Inl infeasible \<and>
   constrained_lsap_costs [[PInf, PInf], [Fin 1, Fin 2]] = Inr [[PInf, PInf], [PInf, PInf]] \<and>
   lap [[NaN]] = Inl (ValueError ''matrix contains invalid numeric entries'') \<and>
   ValueError ''matrix contains invalid numeric entries'' \<noteq> infeasible \<and>
   constrained_lsap_costs [[NaN]] = Inl (ValueError ''matrix contains invalid numeric entries'') \<and>
   lap (remove_row_col 0 0 [[Fin 1, Fin 2], [Fin 3, NaN]])
     = Inl (ValueError ''matrix contains invalid numeric entries'') \<and>
   constrained_lsap_cost 0 0 [[Fin 1, Fin 2], [Fin 3, NaN]]
     = Inl (ValueError ''matrix contains invalid numeric entries'')"
proof -
  let ?inf = "[[PInf, PInf], [Fin 1, Fin 2]]"
  let ?bad = "ValueError ''matrix contains invalid numeric entries''"
  have h1: "lap (if n_rows_of ?inf > n_cols_of ?inf then mat_T ?inf else ?inf) = Inl infeasible"
    by code_simp
  have h2: "lap (if n_rows_of [[NaN]] > n_cols_of [[NaN]] then mat_T [[NaN]] else [[NaN]]) = Inl ?bad"
    by code_simp
  have h3: "lap (remove_row_col 0 0 [[Fin 1, Fin 2], [Fin 3, NaN]]) = Inl ?bad"
    by code_simp
  have ne: "?bad \<noteq> infeasible" by (simp add: infeasible_def)
  have s: "n_rows_of ?inf = 2" "n_cols_of ?inf = 2" "\<not> n_rows_of [[NaN]] > n_cols_of [[NaN]]"
    by (simp_all add: n_rows_of_def n_cols_of_def)
  from solver_failures[of ?inf ?bad 0 0] h1
  have c1: "constrained_lsap_costs ?inf = Inr [[PInf, PInf], [PInf, PInf]]"
    by (simp add: s numeral_2_eq_2)
  from solver_failures[of "[[NaN]]" ?bad 0 0] h2 ne
  have c2: "constrained_lsap_costs [[NaN]] = Inl ?bad" by blast
  from solver_failures[of "[[Fin 1, Fin 2], [Fin 3, NaN]]" ?bad 0 0] h3 ne
  have c3: "constrained_lsap_cost 0 0 [[Fin 1, Fin 2], [Fin 3, NaN]] = Inl ?bad" by blast
  from h1 h2 h3 ne c1 c2 c3 s show ?thesis by simp
qed

subsection \<open>The shortcut against the entry-by-entry computation\<close>

text \<open>
  The unconstrained problem of \<open>tie_costs\<close> has one optimal assignment, rows 0, 1, 2 to
  columns 0, 1, 2 at cost 15: a solver has no choice there.
\<close>

lemma tie_costs_unique_optimum:
  "filter (\<lambda>a. \<not> cless (Fin 15) (assignment_cost tie_costs a)) (assignments 3 [0..<4])
     = [[0, 1, 2]]"
  by code_simp

text \<open>
  Claim C1 fails on the code. For \<open>tie_costs\<close> the entry \<open>(0, 3)\<close> of
  \<open>constrained_lsap_costs\<close> is 115, and \<open>constrained_lsap_cost 0 3\<close> is 105: with row 0
  moved to the unused column 3, row 1 takes column 0 at the same cost as before and
  row 2 takes column 1, which is cheaper by 10. No row is strictly cheaper in the freed
  column 0, so the function does not solve the problem without row 0 again.
\<close>

theorem constrained_lsap_costs_tie:
  "constrained_lsap_costs tie_costs =
     Inr [[Fin 15, Fin 115, Fin 105, Fin 115],
          [Fin 105, Fin 15, Fin 50, Fin 50],
          [Fin 155, Fin 50, Fin 15, Fin 55]] \<and>
   naive_constrained_lsap_costs tie_costs =
     Inr [[Fin 15, Fin 115, Fin 105, Fin 105],
          [Fin 105, Fin 15, Fin 50, Fin 50],
          [Fin 155, Fin 50, Fin 15, Fin 55]] \<and>
   constrained_lsap_cost 0 3 tie_costs = Inr (Fin 105)"
  by code_simp

subsection \<open>What one constrained problem costs\<close>

text \<open>Order and sums of costs that are finite or \<open>+inf\<close>.\<close>

lemma cless_trans: "cless a b \<Longrightarrow> cless b c \<Longrightarrow> cless a c"
  by (cases a; cases b; cases c) simp_all

lemma cless_total: "a \<noteq> NaN \<Longrightarrow> b \<noteq> NaN \<Longrightarrow> cless a b \<or> a = b \<or> cless b a"
  by (cases a; cases b) auto

lemma not_cless_cle: "a \<noteq> NaN \<Longrightarrow> b \<noteq> NaN \<Longrightarrow> \<not> cless b a \<Longrightarrow> cle a b"
  using cless_total[of a b] by (auto simp: cle_def)

lemma valid_cost_add: "valid_cost x \<Longrightarrow> valid_cost y \<Longrightarrow> valid_cost (x + y)"
  by (cases x; cases y) (simp_all add: valid_cost_def)

lemma valid_cost_sum_list: "list_all valid_cost xs \<Longrightarrow> valid_cost (sum_list xs)"
  by (induction xs) (simp_all add: valid_cost_add, simp add: valid_cost_def zero_cost_def)

lemma cle_add_mono:
  "valid_cost x \<Longrightarrow> valid_cost y \<Longrightarrow> valid_cost z \<Longrightarrow> \<not> cless y x \<Longrightarrow> cle (x + z) (y + z)"
  by (cases x; cases y; cases z) (auto simp: valid_cost_def cle_def)

lemma PInf_add_valid: "valid_cost z \<Longrightarrow> PInf + z = PInf"
  by (cases z) (simp_all add: valid_cost_def)

lemma set_assignments:
  "distinct cs \<Longrightarrow>
   set (assignments r cs) = {a. length a = r \<and> distinct a \<and> set a \<subseteq> set cs}"
proof (induction r arbitrary: cs)
  case 0
  then show ?case by auto
next
  case (Suc r)
  have step: "set (assignments r (removeAll c cs))
      = {a. length a = r \<and> distinct a \<and> set a \<subseteq> set cs - {c}}" for c
    using Suc.IH[of "removeAll c cs"] Suc.prems by (simp add: distinct_removeAll)
  show ?case
  proof (intro set_eqI iffI)
    fix a
    assume "a \<in> set (assignments (Suc r) cs)"
    then obtain c a' where "c \<in> set cs" "a = c # a'" "a' \<in> set (assignments r (removeAll c cs))"
      by auto
    then show "a \<in> {a. length a = Suc r \<and> distinct a \<and> set a \<subseteq> set cs}"
      using step[of c] by auto
  next
    fix a
    assume "a \<in> {a. length a = Suc r \<and> distinct a \<and> set a \<subseteq> set cs}"
    then obtain c a' where a: "a = c # a'" "length a' = r" "distinct a'" "c \<notin> set a'"
      "c \<in> set cs" "set a' \<subseteq> set cs"
      by (cases a) auto
    then have "a' \<in> set (assignments r (removeAll c cs))"
      using step[of c] by auto
    with a show "a \<in> set (assignments (Suc r) cs)" by auto
  qed
qed

lemma assignments_upt: "a \<in> set (assignments r [0..<c]) \<longleftrightarrow> is_assignment r c a"
  by (auto simp: set_assignments is_assignment_def list_all_iff)

lemma least_by_mem: "least_by f b xs \<in> set (b # xs)"
  by (induction xs arbitrary: b) (auto split: if_splits)

lemma least_by_least:
  assumes "\<forall>x\<in>set (b # xs). f x \<noteq> NaN"
  shows "\<forall>x\<in>set (b # xs). \<not> cless (f x) (f (least_by f b xs))"
  using assms
proof (induction xs arbitrary: b)
  case Nil
  then show ?case by (cases "f b") simp_all
next
  case (Cons x xs)
  let ?b' = "if cless (f x) (f b) then x else b"
  let ?L = "least_by f ?b' xs"
  have nn: "\<forall>y\<in>set (?b' # xs). f y \<noteq> NaN" using Cons.prems by auto
  from Cons.IH[OF nn] have ih: "\<forall>y\<in>set (?b' # xs). \<not> cless (f y) (f ?L)" .
  have Lnn: "f ?L \<noteq> NaN" using least_by_mem[of f ?b' xs] nn by blast
  have bnn: "f b \<noteq> NaN" "f x \<noteq> NaN" using Cons.prems by auto
  have "\<not> cless (f b) (f ?L)"
  proof (cases "cless (f x) (f b)")
    case True
    then have "\<not> cless (f x) (f ?L)" using ih by simp
    then show ?thesis using True cless_trans by blast
  next
    case False
    then show ?thesis using ih by simp
  qed
  moreover have "\<not> cless (f x) (f ?L)"
  proof (cases "cless (f x) (f b)")
    case True
    then show ?thesis using ih by simp
  next
    case False
    then have nb: "\<not> cless (f b) (f ?L)" using ih by simp
    show ?thesis
    proof
      assume "cless (f x) (f ?L)"
      moreover from nb cless_total[OF bnn(1) Lnn] have "f b = f ?L \<or> cless (f ?L) (f b)" by blast
      ultimately have "cless (f x) (f b)" using cless_trans by metis
      with False show False by simp
    qed
  qed
  ultimately show ?case using ih by simp
qed

lemma assignment_cost_nth:
  "assignment_cost m a = sum_list (map (\<lambda>k. m ! k ! (a ! k)) [0..<length a])"
proof -
  have "zip [0..<length a] a = map (\<lambda>k. (k, a ! k)) [0..<length a]"
    by (rule nth_equalityI) simp_all
  then show ?thesis by (simp add: assignment_cost_def comp_def)
qed

lemma cost_matrix_entry:
  "cost_matrix r c m \<Longrightarrow> k < r \<Longrightarrow> l < c \<Longrightarrow> valid_cost (m ! k ! l)"
  by (simp add: cost_matrix_def list_all_length)

lemma assignment_cost_valid:
  assumes "cost_matrix r c m" "is_assignment r c a"
  shows "valid_cost (assignment_cost m a)"
proof -
  have "list_all valid_cost (map (\<lambda>k. m ! k ! (a ! k)) [0..<length a])"
    using assms cost_matrix_entry[OF assms(1)]
    by (auto simp: list_all_iff is_assignment_def)
  then show ?thesis unfolding assignment_cost_nth by (rule valid_cost_sum_list)
qed

lemma valid_not_NaN: "valid_cost x \<Longrightarrow> x \<noteq> NaN"
  by (simp add: valid_cost_def)

lemma is_assignment_upt: "r \<le> c \<Longrightarrow> is_assignment r c [0..<r]"
  by (simp add: is_assignment_def list_all_iff)

lemma lap_wide:
  assumes cm: "cost_matrix r c m" and rc: "r \<le> c"
  shows "\<exists>a. is_assignment r c a \<and>
     (\<forall>a'. is_assignment r c a' \<longrightarrow> \<not> cless (assignment_cost m a') (assignment_cost m a)) \<and>
     lap m = (if assignment_cost m a = PInf then Inl infeasible else Inr ([0..<r], a))"
proof -
  have valid: "list_all (list_all valid_cost) m"
    using cm by (simp add: cost_matrix_def list_all_iff)
  have rows: "n_rows_of m = r" using cm by (simp add: cost_matrix_def n_rows_of_def)
  have same: "assignments r [0..<n_cols_of m] = assignments r [0..<c]"
  proof (cases r)
    case 0
    then show ?thesis by simp
  next
    case (Suc k)
    then have "n_cols_of m = c"
      using cm by (cases m) (auto simp: cost_matrix_def n_cols_of_def)
    then show ?thesis by simp
  qed
  have le: "n_rows_of m \<le> n_cols_of m"
  proof (cases r)
    case 0
    then show ?thesis using rows by simp
  next
    case (Suc k)
    then have "n_cols_of m = c"
      using cm by (cases m) (auto simp: cost_matrix_def n_cols_of_def)
    then show ?thesis using rows rc by simp
  qed
  have "[0..<r] \<in> set (assignments r [0..<c])"
    using is_assignment_upt[OF rc] by (simp add: assignments_upt)
  then obtain a0 rest where ar: "assignments r [0..<c] = a0 # rest"
    by (cases "assignments r [0..<c]") auto
  let ?a = "least_by (assignment_cost m) a0 rest"
  have mem: "?a \<in> set (assignments r [0..<c])"
    using least_by_mem[of "assignment_cost m" a0 rest] ar by simp
  then have asg: "is_assignment r c ?a" by (simp add: assignments_upt)
  have "\<forall>x\<in>set (a0 # rest). assignment_cost m x \<noteq> NaN"
    using ar assignments_upt assignment_cost_valid[OF cm] valid_not_NaN by metis
  from least_by_least[OF this]
  have least: "\<forall>a'. is_assignment r c a' \<longrightarrow> \<not> cless (assignment_cost m a') (assignment_cost m ?a)"
    using ar assignments_upt by metis
  have best: "best_assignment m = Some ?a"
    by (simp add: best_assignment_def rows same ar)
  have "lap m = (if assignment_cost m ?a = PInf then Inl infeasible else Inr ([0..<r], ?a))"
    using valid le by (simp add: lap_def best rows)
  with asg least show ?thesis by blast
qed

lemma fancy_upt:
  "length a = r \<Longrightarrow> sum_list (fancy m [0..<r] (map int a)) = assignment_cost m a"
proof -
  assume l: "length a = r"
  have "fancy m [0..<r] (map int a) = map (\<lambda>k. m ! k ! (a ! k)) [0..<length a]"
    using l by (intro nth_equalityI) (simp_all add: fancy_def py_nth_def)
  then show ?thesis by (simp add: assignment_cost_nth)
qed

lemma one_hot_Suc: "one_hot (Suc k) (Suc n) = False # one_hot k n"
proof -
  have "[0..<Suc n] = 0 # map Suc [0..<n]"
    by (simp add: upt_conv_Cons map_Suc_upt del: upt_Suc)
  then show ?thesis by (simp add: one_hot_def comp_def del: upt_Suc)
qed

lemma one_hot_0: "one_hot 0 (Suc n) = True # replicate n False"
proof -
  have "[0..<Suc n] = 0 # map Suc [0..<n]"
    by (simp add: upt_conv_Cons map_Suc_upt del: upt_Suc)
  then have "one_hot 0 (Suc n) = True # map (\<lambda>x. False) [0..<n]"
    by (simp add: one_hot_def comp_def del: upt_Suc)
  then show ?thesis by (simp add: map_replicate_const)
qed

lemma select_mask_all:
  "length xs = n \<Longrightarrow> select_mask (map Not (replicate n False)) xs = xs"
  by (induction xs arbitrary: n) (auto simp: select_mask_def)

lemma select_mask_remove:
  "length xs = n \<Longrightarrow> k < n \<Longrightarrow>
   select_mask (map Not (one_hot k n)) xs = take k xs @ drop (Suc k) xs"
proof (induction xs arbitrary: k n)
  case Nil
  then show ?case by simp
next
  case (Cons x xs)
  then obtain n' where n: "n = Suc n'" "length xs = n'" by (cases n) auto
  show ?case
  proof (cases k)
    case 0
    then show ?thesis
      using n select_mask_all[of xs n'] by (simp add: one_hot_0) (simp add: select_mask_def)
  next
    case (Suc k')
    then have "k' < n'" using Cons.prems n by simp
    from Cons.IH[OF n(2) this] show ?thesis
      using n Suc by (simp add: one_hot_Suc) (simp add: select_mask_def)
  qed
qed

lemma nth_remove:
  "k < length xs - 1 \<Longrightarrow> (take i xs @ drop (Suc i) xs) ! k = xs ! skip_index i k"
  by (auto simp: nth_append skip_index_def min_def)

lemma length_remove: "i < length xs \<Longrightarrow> length (take i xs @ drop (Suc i) xs) = length xs - 1"
  by auto

lemma remove_row_col_eq:
  assumes "cost_matrix r c costs" "i < r" "j < c"
  shows "remove_row_col i j costs
     = map (\<lambda>row. take j row @ drop (Suc j) row) (take i costs @ drop (Suc i) costs)"
proof -
  have r: "n_rows_of costs = r" "length costs = r"
    using assms by (simp_all add: cost_matrix_def n_rows_of_def)
  have c: "n_cols_of costs = c"
    using assms by (cases costs) (auto simp: cost_matrix_def n_cols_of_def)
  have rows: "select_mask (map Not (one_hot i r)) costs = take i costs @ drop (Suc i) costs"
    using r assms by (intro select_mask_remove) simp_all
  have "\<And>row. row \<in> set (take i costs @ drop (Suc i) costs) \<Longrightarrow> length row = c"
    using assms(1) by (auto simp: cost_matrix_def list_all_iff dest: in_set_takeD in_set_dropD)
  then show ?thesis
    using assms(3) by (simp add: remove_row_col_def r c rows select_mask_remove)
qed

lemma remove_row_col_matrix:
  assumes "cost_matrix r c costs" "i < r" "j < c"
  shows "cost_matrix (r - 1) (c - 1) (remove_row_col i j costs)"
proof -
  define P where "P = (\<lambda>row. length row = c - 1 \<and> list_all valid_cost row)"
  define f :: "cost list \<Rightarrow> cost list" where "f = (\<lambda>row. take j row @ drop (Suc j) row)"
  have l: "length costs = r" using assms by (simp add: cost_matrix_def)
  have key: "P (f row)" if "row \<in> set (take i costs @ drop (Suc i) costs)" for row
  proof -
    from that have "row \<in> set costs" by (auto dest: in_set_takeD in_set_dropD)
    then have "length row = c" "\<forall>x\<in>set row. valid_cost x"
      using assms(1) by (auto simp: cost_matrix_def list_all_iff)
    then show ?thesis
      using assms(3) unfolding P_def f_def
      by (auto simp: list_all_iff dest: in_set_takeD in_set_dropD)
  qed
  have "length (map f (take i costs @ drop (Suc i) costs)) = r - 1"
    using l assms(2) by auto
  moreover have "list_all P (map f (take i costs @ drop (Suc i) costs))"
    unfolding list_all_iff using key by (metis (no_types, lifting) imageE list.set_map)
  ultimately show ?thesis
    unfolding remove_row_col_eq[OF assms] cost_matrix_def P_def f_def by simp
qed

lemma remove_row_col_nth:
  assumes "cost_matrix r c costs" "i < r" "j < c" "k < r - 1" "l < c - 1"
  shows "remove_row_col i j costs ! k ! l = costs ! skip_index i k ! skip_index j l"
proof -
  have len: "length costs = r" using assms by (simp add: cost_matrix_def)
  have sk: "skip_index i k < r" using assms(4) by (auto simp: skip_index_def)
  then have rowlen: "length (costs ! skip_index i k) = c"
    using assms(1) by (simp add: cost_matrix_def list_all_length)
  have "remove_row_col i j costs ! k
      = (\<lambda>row. take j row @ drop (Suc j) row) ((take i costs @ drop (Suc i) costs) ! k)"
    unfolding remove_row_col_eq[OF assms(1-3)]
    using assms(2,4) len by (intro nth_map) simp
  also have "(take i costs @ drop (Suc i) costs) ! k = costs ! skip_index i k"
    using assms(4) len by (intro nth_remove) simp
  finally show ?thesis
    using nth_remove[of l "costs ! skip_index i k" j] rowlen assms(5) by simp
qed

lemma map_skip_upt: "i < r \<Longrightarrow> map (skip_index i) [0..<r - 1] = [0..<i] @ [Suc i..<r]"
  by (rule nth_equalityI) (auto simp: nth_append skip_index_def)

lemma sum_list_middle:
  fixes y :: cost
  shows "sum_list (xs @ y # zs) = sum_list (xs @ zs) + y"
  by (simp add: add.commute add.left_commute)

lemma cost_split:
  assumes cm: "cost_matrix r c costs" and i: "i < r" and j: "j < c"
    and la: "length a = r" and ai: "a ! i = j" and la': "length a' = r - 1"
    and rel: "\<forall>k<r - 1. a' ! k < c - 1 \<and> skip_index j (a' ! k) = a ! skip_index i k"
  shows "assignment_cost costs a = assignment_cost (remove_row_col i j costs) a' + costs ! i ! j"
proof -
  let ?g = "\<lambda>k. costs ! k ! (a ! k)"
  have upt: "[0..<r] = [0..<i] @ i # [Suc i..<r]"
    using i by (metis le_add1 less_imp_add_positive upt_add_eq_append upt_conv_Cons zero_le
        le_eq_less_or_eq less_or_eq_imp_le)
  have "assignment_cost costs a = sum_list (map ?g ([0..<i] @ i # [Suc i..<r]))"
    using la upt by (simp add: assignment_cost_nth)
  also have "\<dots> = sum_list (map ?g ([0..<i] @ [Suc i..<r])) + ?g i"
    using sum_list_middle[of "map ?g [0..<i]" "?g i" "map ?g [Suc i..<r]"] by simp
  also have "map ?g ([0..<i] @ [Suc i..<r]) = map (\<lambda>k. ?g (skip_index i k)) [0..<r - 1]"
    using map_skip_upt[OF i, symmetric] by (simp add: comp_def del: map_append)
  also have "map (\<lambda>k. ?g (skip_index i k)) [0..<r - 1]
      = map (\<lambda>k. remove_row_col i j costs ! k ! (a' ! k)) [0..<r - 1]"
    using rel remove_row_col_nth[OF cm i j] by (intro map_cong) auto
  finally show ?thesis
    using la' ai by (simp add: assignment_cost_nth)
qed

lemma skip_index_inj: "skip_index j x = skip_index j y \<Longrightarrow> x = y"
  by (auto simp: skip_index_def split: if_splits)

lemma skip_index_neq: "skip_index j x \<noteq> j"
  by (auto simp: skip_index_def)

lemma lift_assignment:
  assumes i: "i < r" and j: "j < c" and b: "is_assignment (r - 1) (c - 1) b"
  defines "a \<equiv> take i (map (skip_index j) b) @ j # drop i (map (skip_index j) b)"
  shows "is_assignment r c a" "a ! i = j" "length a = r"
    "\<forall>k<r - 1. b ! k < c - 1 \<and> skip_index j (b ! k) = a ! skip_index i k"
proof -
  let ?xs = "map (skip_index j) b"
  have lb: "length b = r - 1" and db: "distinct b" and bb: "\<forall>x\<in>set b. x < c - 1"
    using b by (simp_all add: is_assignment_def list_all_iff)
  have lx: "length ?xs = r - 1" using lb by simp
  have ile: "i \<le> length ?xs" using i lx by simp
  show len: "length a = r" using i lb by (simp add: a_def)
  show "a ! i = j" using ile by (simp add: a_def nth_append)
  have dx: "distinct ?xs"
    using db by (simp add: distinct_map inj_on_def skip_index_inj)
  have jx: "j \<notin> set ?xs"
  proof
    assume "j \<in> set ?xs"
    then obtain x where "j = skip_index j x" by auto
    then show False using skip_index_neq[of j x] by simp
  qed
  have "set (take i ?xs) \<inter> set (drop i ?xs) = {}"
    using dx by (rule set_take_disj_set_drop_if_distinct) simp
  moreover have "j \<notin> set (take i ?xs)" "j \<notin> set (drop i ?xs)"
    using jx by (auto dest: in_set_takeD in_set_dropD)
  ultimately have da: "distinct a"
    using dx unfolding a_def by (simp add: distinct_take distinct_drop)
  have xs_lt: "x < c" if "x \<in> set ?xs" for x
    using that bb by (auto simp: skip_index_def)
  have "set a \<subseteq> insert j (set ?xs)"
    unfolding a_def using set_take_subset[of i ?xs] set_drop_subset[of i ?xs] by auto
  then have "\<forall>x\<in>set a. x < c"
    using j xs_lt by blast
  with len da show "is_assignment r c a" by (simp add: is_assignment_def list_all_iff)
  show "\<forall>k<r - 1. b ! k < c - 1 \<and> skip_index j (b ! k) = a ! skip_index i k"
  proof (intro allI impI conjI)
    fix k assume k: "k < r - 1"
    then show "b ! k < c - 1" using bb lb by simp
    show "skip_index j (b ! k) = a ! skip_index i k"
    proof (cases "k < i")
      case True
      then show ?thesis using k lb by (simp add: a_def skip_index_def nth_append)
    next
      case False
      then have "a ! Suc k = (j # drop i ?xs) ! (Suc k - i)"
        using k lb ile by (simp add: a_def nth_append)
      also have "\<dots> = drop i ?xs ! (k - i)" using False by (simp add: Suc_diff_le)
      also have "\<dots> = ?xs ! k" using False k lb by simp
      finally show ?thesis using False k lb by (simp add: skip_index_def)
    qed
  qed
qed

lemma unlift_assignment:
  assumes i: "i < r" and j: "j < c" and a: "is_assignment r c a" and ai: "a ! i = j"
  defines "b \<equiv> map (\<lambda>k. let x = a ! skip_index i k in if x < j then x else x - 1) [0..<r - 1]"
  shows "is_assignment (r - 1) (c - 1) b" "length b = r - 1"
    "\<forall>k<r - 1. b ! k < c - 1 \<and> skip_index j (b ! k) = a ! skip_index i k"
proof -
  have la: "length a = r" and da: "distinct a" and ba: "\<forall>x\<in>set a. x < c"
    using a by (simp_all add: is_assignment_def list_all_iff)
  show lb: "length b = r - 1" by (simp add: b_def)
  have sk: "skip_index i k < r \<and> skip_index i k \<noteq> i" if "k < r - 1" for k
    using that by (auto simp: skip_index_def)
  have nj: "a ! skip_index i k \<noteq> j" if "k < r - 1" for k
    using sk[OF that] da la ai i by (metis nth_eq_iff_index_eq)
  have ltc: "a ! skip_index i k < c" if "k < r - 1" for k
    using sk[OF that] ba la by (metis nth_mem)
  show rel: "\<forall>k<r - 1. b ! k < c - 1 \<and> skip_index j (b ! k) = a ! skip_index i k"
  proof (intro allI impI)
    fix k assume k: "k < r - 1"
    have "b ! k = (let x = a ! skip_index i k in if x < j then x else x - 1)"
      using k by (simp add: b_def)
    then show "b ! k < c - 1 \<and> skip_index j (b ! k) = a ! skip_index i k"
      using nj[OF k] ltc[OF k] j by (auto simp: Let_def skip_index_def)
  qed
  have "distinct b"
    unfolding distinct_conv_nth
  proof (intro allI impI)
    fix k l assume kl: "k < length b" "l < length b" "k \<noteq> l"
    then have k: "k < r - 1" and l: "l < r - 1" using lb by simp_all
    have "skip_index i k \<noteq> skip_index i l" using kl(3) skip_index_inj by blast
    then have "a ! skip_index i k \<noteq> a ! skip_index i l"
      using sk[OF k] sk[OF l] da la by (metis nth_eq_iff_index_eq)
    then show "b ! k \<noteq> b ! l" using rel k l by metis
  qed
  moreover have "\<forall>x\<in>set b. x < c - 1"
    using rel lb by (metis in_set_conv_nth)
  ultimately show "is_assignment (r - 1) (c - 1) b"
    using lb by (simp add: is_assignment_def list_all_iff)
qed

text \<open>No assignment costs more, in magnitude, than the entries of the matrix together.\<close>

lemma magnitude_add: "magnitude (x + y) \<le> magnitude x + magnitude y"
  by (cases x; cases y) simp_all

lemma magnitude_sum_list: "magnitude (sum_list xs) \<le> sum_list (map magnitude xs)"
proof (induction xs)
  case Nil
  then show ?case by (simp add: zero_cost_def)
next
  case (Cons x xs)
  have "magnitude (x + sum_list xs) \<le> magnitude x + magnitude (sum_list xs)"
    by (rule magnitude_add)
  then show ?case using Cons by simp
qed

lemma magnitude_concat:
  "sum_list (map magnitude (concat m)) = sum_list (map (\<lambda>k. sum_list (map magnitude (m ! k))) [0..<length m])"
proof -
  have "sum_list (map magnitude (concat m)) = sum_list (map (\<lambda>row. sum_list (map magnitude row)) m)"
    by (induction m) simp_all
  also have "map (\<lambda>row. sum_list (map magnitude row)) m
      = map (\<lambda>k. sum_list (map magnitude (m ! k))) [0..<length m]"
    by (rule nth_equalityI) simp_all
  finally show ?thesis .
qed

lemma assignment_cost_magnitude:
  assumes cm: "cost_matrix r c m" and a: "is_assignment r c a"
  shows "magnitude (assignment_cost m a) \<le> sum_list (map magnitude (concat m))"
proof -
  have la: "length a = r" and lm: "length m = r" using cm a
    by (simp_all add: is_assignment_def cost_matrix_def)
  have entry: "magnitude (m ! k ! (a ! k)) \<le> sum_list (map magnitude (m ! k))" if "k < r" for k
  proof -
    have "a ! k < c" using a that by (simp add: is_assignment_def list_all_length)
    moreover have "length (m ! k) = c" using cm that by (simp add: cost_matrix_def list_all_length)
    ultimately have "magnitude (m ! k ! (a ! k)) \<in> set (map magnitude (m ! k))" by simp
    then show ?thesis by (intro member_le_sum_list) simp_all
  qed
  have "magnitude (assignment_cost m a)
      \<le> sum_list (map magnitude (map (\<lambda>k. m ! k ! (a ! k)) [0..<length a]))"
    unfolding assignment_cost_nth by (rule magnitude_sum_list)
  also have "\<dots> = sum_list (map (\<lambda>k. magnitude (m ! k ! (a ! k))) [0..<r])"
    by (simp add: la comp_def)
  also have "\<dots> \<le> sum_list (map (\<lambda>k. sum_list (map magnitude (m ! k))) [0..<r])"
    by (rule sum_list_mono) (simp add: entry)
  also have "\<dots> = sum_list (map magnitude (concat m))"
    by (simp add: magnitude_concat lm)
  finally show ?thesis .
qed

text \<open>
  Claim C4, as amended. For a cost matrix of shape \<open>r \<times> c\<close> with \<open>r \<le> c\<close> whose
  entries are \<open>+inf\<close> or integers with magnitudes that add up to at most \<open>2^p\<close>, and
  a row \<open>i\<close> and a column \<open>j\<close> of it, \<open>constrained_lsap_cost i j\<close> returns the least
  total cost of the assignments of the \<open>r\<close> rows to pairwise distinct columns that pair
  \<open>i\<close> with \<open>j\<close>: some such assignment has that cost and none has less. The result is
  \<open>+inf\<close> exactly when all of them cost \<open>+inf\<close>, and otherwise an integer of magnitude
  at most \<open>2^p\<close>. Here \<open>p\<close> is the precision of the number type of the array, 53 for
  \<^verbatim>\<open>float64\<close> and \<^verbatim>\<open>int64\<close>.
\<close>

theorem constrained_lsap_cost_minimum:
  assumes cm: "cost_matrix r c costs" and ex: "exact_costs p costs"
    and rc: "r \<le> c" and i: "i < r" and j: "j < c"
  shows "\<exists>v a. constrained_lsap_cost i j costs = Inr v \<and> magnitude v \<le> 2 ^ p \<and>
           is_assignment r c a \<and> a ! i = j \<and> assignment_cost costs a = v \<and>
           (\<forall>a'. is_assignment r c a' \<and> a' ! i = j \<longrightarrow> cle v (assignment_cost costs a'))"
proof -
  let ?sub = "remove_row_col i j costs"
  let ?cij = "costs ! i ! j"
  have cm': "cost_matrix (r - 1) (c - 1) ?sub" by (rule remove_row_col_matrix[OF cm i j])
  have rc': "r - 1 \<le> c - 1" using rc by simp
  have vij: "valid_cost ?cij" by (rule cost_matrix_entry[OF cm i j])
  from lap_wide[OF cm' rc'] obtain b where b: "is_assignment (r - 1) (c - 1) b"
    and least: "\<forall>b'. is_assignment (r - 1) (c - 1) b' \<longrightarrow>
                  \<not> cless (assignment_cost ?sub b') (assignment_cost ?sub b)"
    and lap: "lap ?sub = (if assignment_cost ?sub b = PInf then Inl infeasible
                          else Inr ([0..<r - 1], b))"
    by blast
  let ?v = "assignment_cost ?sub b + ?cij"
  have lb: "length b = r - 1" using b by (simp add: is_assignment_def)
  have res: "constrained_lsap_cost i j costs = Inr ?v"
  proof (cases "assignment_cost ?sub b = PInf")
    case True
    then show ?thesis
      using lap vij by (simp add: constrained_lsap_cost_def PInf_add_valid)
  next
    case False
    then show ?thesis
      using lap fancy_upt[OF lb, of ?sub] by (simp add: constrained_lsap_cost_def)
  qed
  define a where "a = take i (map (skip_index j) b) @ j # drop i (map (skip_index j) b)"
  note lift = lift_assignment[OF i j b, folded a_def]
  have cost_a: "assignment_cost costs a = ?v"
    by (rule cost_split[OF cm i j lift(3) lift(2) lb lift(4)])
  have minimal: "cle ?v (assignment_cost costs a')"
    if a': "is_assignment r c a'" "a' ! i = j" for a'
  proof -
    define b' where
      "b' = map (\<lambda>k. let x = a' ! skip_index i k in if x < j then x else x - 1) [0..<r - 1]"
    note un = unlift_assignment[OF i j a', folded b'_def]
    have la': "length a' = r" using a'(1) by (simp add: is_assignment_def)
    have eq: "assignment_cost costs a' = assignment_cost ?sub b' + ?cij"
      by (rule cost_split[OF cm i j la' a'(2) un(2) un(3)])
    have "\<not> cless (assignment_cost ?sub b') (assignment_cost ?sub b)"
      using least un(1) by blast
    then have "cle ?v (assignment_cost ?sub b' + ?cij)"
      using assignment_cost_valid[OF cm' b] assignment_cost_valid[OF cm' un(1)] vij
      by (intro cle_add_mono)
    then show ?thesis by (simp add: eq)
  qed
  have "magnitude (assignment_cost costs a) \<le> 2 ^ p"
    using assignment_cost_magnitude[OF cm lift(1)] ex by (simp add: exact_costs_def)
  then have range: "magnitude ?v \<le> 2 ^ p" by (simp add: cost_a)
  from res range lift(1,2) cost_a minimal show ?thesis by blast
qed

theorem constrained_lsap_cost_minimum_witness:
  "cost_matrix 3 4 tie_costs \<and> exact_costs 53 tie_costs \<and>
   (3::nat) \<le> 4 \<and> (0::nat) < 3 \<and> (3::nat) < 4 \<and>
   constrained_lsap_cost 0 3 tie_costs = Inr (Fin 105) \<and> magnitude (Fin 105) \<le> 2 ^ 53 \<and>
   (\<exists>a. is_assignment 3 4 a \<and> a ! 0 = 3 \<and> assignment_cost tie_costs a = Fin 105 \<and>
      (\<forall>a'. is_assignment 3 4 a' \<and> a' ! 0 = 3 \<longrightarrow> cle (Fin 105) (assignment_cost tie_costs a')))"
proof -
  have cm: "cost_matrix 3 4 tie_costs"
    by (simp add: cost_matrix_def tie_costs_def valid_cost_def)
  have ex: "exact_costs 53 tie_costs"
    by (simp add: exact_costs_def tie_costs_def)
  have v: "constrained_lsap_cost 0 3 tie_costs = Inr (Fin 105)" by code_simp
  from constrained_lsap_cost_minimum[OF cm ex, of 0 3] v cm ex show ?thesis by auto
qed

text \<open>
  Claim C4 as stated fails when there are more rows than columns: no assignment gives
  three rows pairwise distinct columns out of two, so the claim says \<open>+inf\<close>, and the
  result is 1. The solver pairs the one column left with the cheaper of the two rows
  left.
\<close>

theorem constrained_lsap_cost_tall:
  "constrained_lsap_cost 0 0 tall_costs = Inr (Fin 1) \<and>
   \<not> (\<exists>a. is_assignment 3 2 a)"
proof -
  have "constrained_lsap_cost 0 0 tall_costs = Inr (Fin 1)" by code_simp
  moreover have "\<not> (\<exists>a. is_assignment 3 2 a)"
  proof
    assume "\<exists>a. is_assignment 3 2 a"
    then obtain a :: "nat list" where a: "length a = 3" "distinct a" "\<forall>x\<in>set a. x < 2"
      by (auto simp: is_assignment_def list_all_iff)
    then have sub: "set a \<subseteq> {0..<2}" by auto
    have "card (set a) = 3" using a by (simp add: distinct_card)
    moreover have "card (set a) \<le> card {0..<2::nat}"
      using sub by (intro card_mono) simp_all
    ultimately show False by simp
  qed
  ultimately show ?thesis by blast
qed

section \<open>Properties of the counter of distinct representatives\<close>

lemma shares_value_iff: "shares_value x y \<longleftrightarrow> set (snd x) \<inter> set (snd y) \<noteq> {}"
  by (auto simp: shares_value_def list_ex_iff)

lemma components_disjoint:
  "disjoint_family items \<Longrightarrow> components items = map (\<lambda>x. [x]) items"
proof (induction items)
  case Nil
  then show ?case by (simp add: components_def)
next
  case (Cons x xs)
  then have ih: "components xs = map (\<lambda>y. [y]) xs" and none: "\<forall>y\<in>set xs. \<not> shares_value x y"
    by (simp_all add: list_all_iff)
  have no_touch: "\<forall>g\<in>set (map (\<lambda>y. [y]) xs). \<not> touches x g"
    using none by (auto simp: touches_def)
  then have "filter (touches x) (map (\<lambda>y. [y]) xs) = []"
    and "filter (\<lambda>g. \<not> touches x g) (map (\<lambda>y. [y]) xs) = map (\<lambda>y. [y]) xs"
    by (simp_all add: filter_empty_conv filter_id_conv)
  moreover have "components (x # xs) = add_item x (components xs)"
    by (simp add: components_def)
  ultimately show ?case by (simp add: ih add_item_def)
qed

lemma count_component_single: "count_component [x] = card (set (snd x))"
proof -
  have "count_component [x] = sum_list (map (\<lambda>v. 1) (candidates x))"
    by (simp add: count_component.simps Let_def)
  then show ?thesis
    by (simp add: candidates_def sum_list_triv length_remdups_card_conv)
qed

text \<open>
  Claim C7. For a family of items whose candidate sets are pairwise disjoint,
  \<open>count_alldiffs\<close> is the product of the sizes of the candidate sets; for the family
  \<open>{a: [1, 2, 3, 4], b: [5, 6, 7]}\<close> it is 12.
\<close>

theorem count_alldiffs_disjoint:
  "(disjoint_family items \<longrightarrow>
      count_alldiffs items = prod_list (map (\<lambda>x. card (set (snd x))) items)) \<and>
   count_alldiffs [(''a'', [1, 2, 3, 4 :: nat]), (''b'', [5, 6, 7])] = 12"
proof
  show "disjoint_family items \<longrightarrow>
      count_alldiffs items = prod_list (map (\<lambda>x. card (set (snd x))) items)"
    by (simp add: count_alldiffs_def components_disjoint comp_def count_component_single)
  show "count_alldiffs [(''a'', [1, 2, 3, 4 :: nat]), (''b'', [5, 6, 7])] = 12"
    by code_simp
qed

theorem count_alldiffs_disjoint_witness:
  "disjoint_family [(''a'', [1, 2 :: nat]), (''b'', [3, 4]), (''c'', [5, 6])] \<and>
   count_alldiffs [(''a'', [1, 2 :: nat]), (''b'', [3, 4]), (''c'', [5, 6])] = 8"
proof -
  have d: "disjoint_family [(''a'', [1, 2 :: nat]), (''b'', [3, 4]), (''c'', [5, 6])]"
    by (simp add: shares_value_def)
  from count_alldiffs_disjoint[of "[(''a'', [1, 2 :: nat]), (''b'', [3, 4]), (''c'', [5, 6])]"] d
  show ?thesis by simp
qed

end
